theory Spec2Isabelle
  imports Complex_Main "HOL-Library.Multiset"
begin

section \<open>Data model\<close>

text \<open>
  The repository is a pandas pipeline (\<^verbatim>\<open>src/prepare_data.py\<close>, \<^verbatim>\<open>src/data_io.py\<close>).
  A float64 cell is a value of \<open>fl\<close>: \<open>NaN\<close> is the undefined cell, \<open>Num r\<close> a finite
  number (zero taken as +0), \<open>PInf\<close> and \<open>NInf\<close> the two infinities. The arithmetic of the
  returns is exact (no rounding, no overflow); the arithmetic of the Standardizer, where
  a branch depends on the rounding, takes the rounding as a parameter. A date is an
  ordinal day number. The pandas calls are modelled with the behaviour of pandas 1.x and
  2.x, the versions the code runs on. A source function \<^verbatim>\<open>_f\<close> is the constant \<open>f\<close>
  here.
\<close>

datatype fl = NaN | Num real | PInf | NInf

fun isna :: "fl \<Rightarrow> bool" where
  "isna NaN = True"
| "isna _ = False"

fun isfinite :: "fl \<Rightarrow> bool" where
  "isfinite (Num _) = True"
| "isfinite _ = False"

type_synonym date = int

text \<open>
  A DataFrame is stored by columns: the row labels (the date axis) and, per column, its
  name and its cells. A well-formed frame has one cell per row in every column.
\<close>

record frame =
  index :: "date list"
  cols :: "(string \<times> fl list) list"

definition wf_frame :: "frame \<Rightarrow> bool" where
  "wf_frame df = list_all (\<lambda>c. length (snd c) = length (index df)) (cols df)"

definition column :: "frame \<Rightarrow> nat \<Rightarrow> fl list" where
  "column df k = snd (cols df ! k)"

definition len :: "frame \<Rightarrow> nat" where
  "len df = length (index df)"

text \<open>The exceptions the code (or pandas under it) raises, as values.\<close>

datatype error =
    ValueError_NoData string
  | ValueError_Limit
  | OverflowError
  | ValueError_NoObjects
  | ValueError_DuplicateLabels
  | ValueError_TooFew nat int
  | ValueError_NoAxis
  | KeyError string
  | IndexError

section \<open>GapFiller: \<^verbatim>\<open>_forward_fill_limited\<close>\<close>

text \<open>
  \<^verbatim>\<open>df.ffill(limit=max_gap)\<close>. pandas pads each column with the loop of
  \<^verbatim>\<open>algos.pad_inplace\<close>: it carries the last value seen (\<open>val\<close>, initially the first
  cell) and the number of cells filled since (\<open>fill_count\<close>); a NaN cell is overwritten
  by \<open>val\<close> unless \<open>fill_count\<close> has reached the limit \<open>n\<close>; a defined cell resets the count.
\<close>

fun pad_loop :: "nat \<Rightarrow> fl \<Rightarrow> nat \<Rightarrow> fl list \<Rightarrow> fl list" where
  "pad_loop n val fill_count [] = []"
| "pad_loop n val fill_count (x # xs) =
     (if isna x then
        (if n \<le> fill_count then x # pad_loop n val fill_count xs
         else val # pad_loop n val (Suc fill_count) xs)
      else x # pad_loop n x 0 xs)"

definition pad_inplace :: "nat \<Rightarrow> fl list \<Rightarrow> fl list" where
  "pad_inplace n values = (case values of [] \<Rightarrow> [] | v0 # _ \<Rightarrow> pad_loop n v0 0 values)"

text \<open>
  \<^verbatim>\<open>validate_limit\<close>: no limit means the number of rows; a limit below 1 raises
  \<^verbatim>\<open>ValueError("Limit must be greater than 0")\<close>; an accepted limit is then stored in a
  C \<^verbatim>\<open>int\<close>, which raises \<^verbatim>\<open>OverflowError\<close> from \<open>2^31\<close> on. pandas validates only when
  there is a row to pad (\<^verbatim>\<open>if N == 0: return\<close> comes first).
\<close>

definition map_cols :: "(fl list \<Rightarrow> fl list) \<Rightarrow> frame \<Rightarrow> frame" where
  "map_cols f df = df\<lparr>cols := map (\<lambda>(n, c). (n, f c)) (cols df)\<rparr>"

definition ffill :: "frame \<Rightarrow> int option \<Rightarrow> error + frame" where
  "ffill df limit =
     (case limit of
        None \<Rightarrow> Inr (map_cols (\<lambda>c. pad_inplace (length c) c) df)
      | Some l \<Rightarrow>
          if list_ex (\<lambda>c. snd c \<noteq> []) (cols df) then
            (if l < 1 then Inl ValueError_Limit
             else if 2 ^ 31 \<le> l then Inl OverflowError
             else Inr (map_cols (pad_inplace (nat l)) df))
          else Inr (map_cols (pad_inplace (nat l)) df))"

definition forward_fill_limited :: "frame \<Rightarrow> int \<Rightarrow> error + frame" where
  "forward_fill_limited df max_gap = ffill df (Some max_gap)"

section \<open>Float arithmetic on cells\<close>

text \<open>IEEE-754 arithmetic on the idealised values: NaN propagates, \<open>0/0\<close> and
  \<open>inf - inf\<close> are NaN, a nonzero number over zero is an infinity.\<close>

fun fl_neg :: "fl \<Rightarrow> fl" where
  "fl_neg NaN = NaN"
| "fl_neg (Num a) = Num (- a)"
| "fl_neg PInf = NInf"
| "fl_neg NInf = PInf"

fun fl_add :: "fl \<Rightarrow> fl \<Rightarrow> fl" where
  "fl_add NaN _ = NaN"
| "fl_add _ NaN = NaN"
| "fl_add (Num a) (Num b) = Num (a + b)"
| "fl_add PInf NInf = NaN"
| "fl_add NInf PInf = NaN"
| "fl_add PInf _ = PInf"
| "fl_add _ PInf = PInf"
| "fl_add NInf _ = NInf"
| "fl_add _ NInf = NInf"

definition fl_sub :: "fl \<Rightarrow> fl \<Rightarrow> fl" where
  "fl_sub a b = fl_add a (fl_neg b)"

fun fl_div :: "fl \<Rightarrow> fl \<Rightarrow> fl" where
  "fl_div NaN _ = NaN"
| "fl_div _ NaN = NaN"
| "fl_div (Num a) (Num b) =
     (if b \<noteq> 0 then Num (a / b) else if a = 0 then NaN else if 0 < a then PInf else NInf)"
| "fl_div (Num a) _ = Num 0"
| "fl_div PInf (Num b) = (if 0 \<le> b then PInf else NInf)"
| "fl_div NInf (Num b) = (if 0 \<le> b then NInf else PInf)"
| "fl_div _ _ = NaN"

fun fl_sq :: "fl \<Rightarrow> fl" where
  "fl_sq NaN = NaN"
| "fl_sq (Num a) = Num (a * a)"
| "fl_sq _ = PInf"

fun fl_sqrt :: "fl \<Rightarrow> fl" where
  "fl_sqrt (Num a) = (if 0 \<le> a then Num (sqrt a) else NaN)"
| "fl_sqrt PInf = PInf"
| "fl_sqrt _ = NaN"

section \<open>Row selection, sorting, label lookup\<close>

text \<open>\<open>take_rows ps df\<close>: the rows of \<open>df\<close> at the positions \<open>ps\<close>, in that order
  (\<^verbatim>\<open>df.iloc[ps]\<close>).\<close>

definition take_rows :: "nat list \<Rightarrow> frame \<Rightarrow> frame" where
  "take_rows ps df =
     \<lparr>index = map ((!) (index df)) ps,
      cols = map (\<lambda>(n, c). (n, map ((!) c) ps)) (cols df)\<rparr>"

text \<open>\<^verbatim>\<open>df.sort_index()\<close>: rows by ascending label (modelled as a stable sort).\<close>

definition sort_index :: "frame \<Rightarrow> frame" where
  "sort_index df = take_rows (sort_key ((!) (index df)) [0..<length (index df)]) df"

text \<open>\<^verbatim>\<open>Index.unique()\<close>: first occurrences, in order.\<close>

definition unique :: "'a list \<Rightarrow> 'a list" where
  "unique xs = rev (remdups (rev xs))"

text \<open>\<^verbatim>\<open>a.intersection(b)\<close> (\<^verbatim>\<open>sort=False\<close>): the distinct labels of \<open>a\<close> that occur in
  \<open>b\<close>, in the order of \<open>a\<close> (for two ascending indexes: the ascending common labels).\<close>

definition intersection :: "date list \<Rightarrow> date list \<Rightarrow> date list" where
  "intersection a b = filter (\<lambda>d. d \<in> set b) (unique a)"

text \<open>\<^verbatim>\<open>df.loc[labels]\<close> for labels that all occur in the index: for each label in turn,
  every row carrying it.\<close>

definition loc :: "frame \<Rightarrow> date list \<Rightarrow> frame" where
  "loc df labels =
     take_rows (concat (map (\<lambda>l. filter (\<lambda>i. index df ! i = l) [0..<length (index df)]) labels)) df"

text \<open>\<^verbatim>\<open>df.dropna(how="all")\<close> keeps the rows with some defined cell;
  \<^verbatim>\<open>df.dropna()\<close> keeps the rows with every cell defined.\<close>

definition dropna_all :: "frame \<Rightarrow> frame" where
  "dropna_all df =
     take_rows (filter (\<lambda>i. list_ex (\<lambda>c. \<not> isna (snd c ! i)) (cols df)) [0..<length (index df)]) df"

definition dropna_any :: "frame \<Rightarrow> frame" where
  "dropna_any df =
     take_rows (filter (\<lambda>i. list_all (\<lambda>c. \<not> isna (snd c ! i)) (cols df)) [0..<length (index df)]) df"

section \<open>PriceFetcher and PanelBuilder: \<^verbatim>\<open>_fetch_stooq\<close>, \<^verbatim>\<open>_fetch_many\<close>\<close>

record series =
  s_name :: string
  s_index :: "date list"
  s_values :: "fl list"

text \<open>The external call \<^verbatim>\<open>pdr.DataReader(symbol, "stooq", start, end)\<close> is a parameter:
  it maps symbol, start and end to the raw table the source returned.\<close>

type_synonym reader = "string \<Rightarrow> string \<Rightarrow> string \<Rightarrow> frame"

text \<open>\<^verbatim>\<open>df.empty\<close>: some axis has length 0.\<close>

definition empty_df :: "frame \<Rightarrow> bool" where
  "empty_df df = (index df = [] \<or> cols df = [])"

definition columns :: "frame \<Rightarrow> string list" where
  "columns df = map fst (cols df)"

definition pick_col :: "frame \<Rightarrow> string" where
  "pick_col df =
     (case find (\<lambda>candidate. candidate \<in> set (columns df)) [''Adj Close'', ''AdjClose'', ''Close''] of
        None \<Rightarrow> ''Close''
      | Some candidate \<Rightarrow> candidate)"

definition fetch_stooq :: "reader \<Rightarrow> string \<Rightarrow> string \<Rightarrow> string \<Rightarrow> error + series" where
  "fetch_stooq rd symbol start end' =
     (let df = rd symbol start end' in
      if empty_df df then Inl (ValueError_NoData symbol)
      else
        (case map_of (cols df) (pick_col df) of
           None \<Rightarrow> Inl (KeyError (pick_col df))
         | Some c \<Rightarrow>
             (let rows = sort_key fst (zip (index df) c)
              in Inr \<lparr>s_name = symbol, s_index = map fst rows, s_values = map snd rows\<rparr>)))"

text \<open>The loop of \<^verbatim>\<open>_fetch_many\<close>: the first failing fetch aborts it.\<close>

fun fetch_all :: "reader \<Rightarrow> string list \<Rightarrow> string \<Rightarrow> string \<Rightarrow> error + series list" where
  "fetch_all rd [] start end' = Inr []"
| "fetch_all rd (symb # symbols) start end' =
     (case fetch_stooq rd symb start end' of
        Inl e \<Rightarrow> Inl e
      | Inr s \<Rightarrow>
          (case fetch_all rd symbols start end' of
             Inl e \<Rightarrow> Inl e
           | Inr ss \<Rightarrow> Inr (s # ss)))"

text \<open>\<^verbatim>\<open>pd.concat(series, axis=1)\<close>: no series raises; identical indexes are kept as they
  are; otherwise every series is reindexed to the union of the labels (NaN where a series
  has no row), which raises on a series with duplicate labels.\<close>

definition reindex :: "series \<Rightarrow> date list \<Rightarrow> fl list" where
  "reindex s idx =
     map (\<lambda>d. case map_of (zip (s_index s) (s_values s)) d of None \<Rightarrow> NaN | Some v \<Rightarrow> v) idx"

definition concat_axis1 :: "series list \<Rightarrow> error + frame" where
  "concat_axis1 ss =
     (case ss of
        [] \<Rightarrow> Inl ValueError_NoObjects
      | s0 # _ \<Rightarrow>
          if list_all (\<lambda>s. s_index s = s_index s0) ss
          then Inr \<lparr>index = s_index s0, cols = map (\<lambda>s. (s_name s, s_values s)) ss\<rparr>
          else if list_ex (\<lambda>s. \<not> distinct (s_index s)) ss then Inl ValueError_DuplicateLabels
          else
            (let idx = unique (concat (map s_index ss))
             in Inr \<lparr>index = idx, cols = map (\<lambda>s. (s_name s, reindex s idx)) ss\<rparr>))"

definition fetch_many :: "reader \<Rightarrow> string list \<Rightarrow> string \<Rightarrow> string \<Rightarrow> error + frame" where
  "fetch_many rd symbols start end' =
     (case fetch_all rd symbols start end' of
        Inl e \<Rightarrow> Inl e
      | Inr ss \<Rightarrow>
          (case concat_axis1 ss of
             Inl e \<Rightarrow> Inl e
           | Inr prices \<Rightarrow> Inr (sort_index prices)))"

section \<open>Resampler: \<^verbatim>\<open>_resample_if_needed\<close>\<close>

text \<open>\<^verbatim>\<open>str.upper\<close> on ASCII tags.\<close>

definition upper_char :: "char \<Rightarrow> char" where
  "upper_char c =
     (case map_of (zip ''abcdefghijklmnopqrstuvwxyz'' ''ABCDEFGHIJKLMNOPQRSTUVWXYZ'') c of
        None \<Rightarrow> c
      | Some u \<Rightarrow> u)"

definition upper :: "string \<Rightarrow> string" where
  "upper s = map upper_char s"

text \<open>pandas' \<^verbatim>\<open>df.resample(rule).last()\<close> is a parameter \<open>rs\<close> (rule, frame).
  The dictionary lookup raises \<^verbatim>\<open>KeyError\<close> on any other tag.\<close>

definition resample_if_needed ::
  "(string \<Rightarrow> frame \<Rightarrow> frame) \<Rightarrow> frame \<Rightarrow> string \<Rightarrow> error + frame" where
  "resample_if_needed rs df freq =
     (if upper freq \<in> {''D'', ''DAILY''} then Inr df
      else
        (case map_of [(''W'', ''W-FRI''), (''M'', ''M'')] (upper freq) of
           None \<Rightarrow> Inl (KeyError (upper freq))
         | Some rule \<Rightarrow> Inr (rs rule df)))"

section \<open>ReturnComputer and Aligner: \<^verbatim>\<open>_to_simple_returns\<close>, \<^verbatim>\<open>_intersect_dates\<close>\<close>

text \<open>\<^verbatim>\<open>prices.pct_change()\<close> with the defaults of pandas 1.x and 2.x
  (\<^verbatim>\<open>periods=1, fill_method="pad", limit=None\<close>): the column is padded without limit,
  shifted down by one row, and the result is \<^verbatim>\<open>data / shifted - 1\<close>.\<close>

definition shift1 :: "fl list \<Rightarrow> fl list" where
  "shift1 c = take (length c) (NaN # c)"

definition pct_change_col :: "fl list \<Rightarrow> fl list" where
  "pct_change_col c =
     (let data = pad_inplace (length c) c; shifted = shift1 data
      in map2 (\<lambda>x y. fl_sub (fl_div x y) (Num 1)) data shifted)"

definition pct_change :: "frame \<Rightarrow> frame" where
  "pct_change df = map_cols pct_change_col df"

definition to_simple_returns :: "frame \<Rightarrow> frame" where
  "to_simple_returns prices = dropna_all (pct_change prices)"

definition intersect_dates :: "frame \<Rightarrow> frame \<Rightarrow> frame \<times> frame" where
  "intersect_dates a b =
     (let common = intersection (index a) (index b) in (loc a common, loc b common))"

section \<open>PipelineDriver: \<^verbatim>\<open>main\<close>\<close>

text \<open>The parsed command line, and what \<^verbatim>\<open>main\<close> persists: the four tables written
  with \<^verbatim>\<open>to_csv\<close> and the observation count of the metadata record.\<close>

record args =
  arg_index :: string
  arg_tickers :: "string list"
  arg_start :: string
  arg_end :: string
  arg_freq :: string
  arg_outdir :: string
  arg_min_days :: int

record outputs =
  prices_assets :: frame
  prices_index :: frame
  returns_assets :: frame
  returns_index :: frame
  n_observations :: nat

definition to_frame :: "series \<Rightarrow> frame" where
  "to_frame s = \<lparr>index = s_index s, cols = [(s_name s, s_values s)]\<rparr>"

text \<open>The block \<^verbatim>\<open>if args.freq.upper() != "D"\<close> of \<^verbatim>\<open>main\<close>: both panels are resampled,
  the assets first.\<close>

definition resample_prices ::
  "(string \<Rightarrow> frame \<Rightarrow> frame) \<Rightarrow> string \<Rightarrow> frame \<Rightarrow> frame \<Rightarrow> error + frame \<times> frame" where
  "resample_prices rs freq asset_prices idx_prices =
     (if upper freq \<noteq> ''D'' then
        (case resample_if_needed rs asset_prices freq of
           Inl e \<Rightarrow> Inl e
         | Inr asset_prices' \<Rightarrow>
             (case resample_if_needed rs idx_prices freq of
                Inl e \<Rightarrow> Inl e
              | Inr idx_prices' \<Rightarrow> Inr (asset_prices', idx_prices')))
      else Inr (asset_prices, idx_prices))"

text \<open>The first half of \<^verbatim>\<open>main\<close>, up to the price-level alignment: fetch, forward-fill
  with \<^verbatim>\<open>max_gap=3\<close>, resample unless the upper-cased frequency is \<open>D\<close>, intersect.\<close>

definition aligned_prices ::
  "reader \<Rightarrow> (string \<Rightarrow> frame \<Rightarrow> frame) \<Rightarrow> args \<Rightarrow> error + frame \<times> frame" where
  "aligned_prices rd rs a =
     (case fetch_stooq rd (arg_index a) (arg_start a) (arg_end a) of
        Inl e \<Rightarrow> Inl e
      | Inr s \<Rightarrow>
     (case fetch_many rd (arg_tickers a) (arg_start a) (arg_end a) of
        Inl e \<Rightarrow> Inl e
      | Inr asset_prices0 \<Rightarrow>
     (case forward_fill_limited asset_prices0 3 of
        Inl e \<Rightarrow> Inl e
      | Inr asset_prices1 \<Rightarrow>
     (case forward_fill_limited (to_frame s) 3 of
        Inl e \<Rightarrow> Inl e
      | Inr idx_prices1 \<Rightarrow>
     (case resample_prices rs (arg_freq a) asset_prices1 idx_prices1 of
        Inl e \<Rightarrow> Inl e
      | Inr (asset_prices2, idx_prices2) \<Rightarrow> Inr (intersect_dates asset_prices2 idx_prices2))))))"

text \<open>The second half: the row-count check, the returns, the re-alignment, the outputs.\<close>

definition main :: "reader \<Rightarrow> (string \<Rightarrow> frame \<Rightarrow> frame) \<Rightarrow> args \<Rightarrow> error + outputs" where
  "main rd rs a =
     (case aligned_prices rd rs a of
        Inl e \<Rightarrow> Inl e
      | Inr (asset_prices, idx_prices) \<Rightarrow>
          (let n_obs = len asset_prices in
           if int n_obs < arg_min_days a then Inl (ValueError_TooFew n_obs (arg_min_days a))
           else
             (let asset_rets = to_simple_returns asset_prices;
                  idx_rets = to_simple_returns idx_prices;
                  (asset_rets', idx_rets') = intersect_dates asset_rets idx_rets
              in Inr \<lparr>prices_assets = asset_prices, prices_index = idx_prices,
                      returns_assets = asset_rets', returns_index = idx_rets',
                      n_observations = len asset_rets'\<rparr>)))"

section \<open>Loader and Standardizer: \<^verbatim>\<open>data_io.py\<close>\<close>

text \<open>\<^verbatim>\<open>left.join(right, how="inner", lsuffix="", rsuffix="_INDEX")\<close> on two sorted
  indexes: every pair of rows with equal labels, left-major; a right column whose name
  the left table also has gets the suffix.\<close>

definition join_inner :: "frame \<Rightarrow> frame \<Rightarrow> frame" where
  "join_inner l r =
     (let pairs = concat (map (\<lambda>i. map (\<lambda>j. (i, j))
                    (filter (\<lambda>j. index r ! j = index l ! i) [0..<length (index r)]))
                    [0..<length (index l)])
      in \<lparr>index = map (\<lambda>(i, j). index l ! i) pairs,
          cols = map (\<lambda>(n, c). (n, map (\<lambda>(i, j). c ! i) pairs)) (cols l) @
                 map (\<lambda>(n, c). (if n \<in> set (columns l) then n @ ''_INDEX'' else n,
                                 map (\<lambda>(i, j). c ! j) pairs)) (cols r)\<rparr>)"

text \<open>\<^verbatim>\<open>load_returns_from_csv\<close>. The two tables \<^verbatim>\<open>read_csv(...).set_index(date_col)\<close>
  are the parameters. \<^verbatim>\<open>df.iloc[:, -1]\<close> raises \<^verbatim>\<open>IndexError\<close> on a frame without
  columns; \<^verbatim>\<open>X.dropna(axis=1, how="all")\<close> drops the columns with no defined cell. When
  the join has no row, \<open>X\<close> is left without rows and columns, and
  \<^verbatim>\<open>pd.concat([y, X], axis=1)\<close> raises \<^verbatim>\<open>ValueError\<close> (no axis 1 on the series that then
  leads the concatenation).\<close>

definition load_returns_from_csv :: "frame \<Rightarrow> frame \<Rightarrow> error + series \<times> frame" where
  "load_returns_from_csv index_csv assets_csv =
     (let idx = sort_index index_csv;
          ast = sort_index assets_csv;
          df = join_inner ast idx
      in if cols df = [] then Inl IndexError
         else if index df = [] then Inl ValueError_NoAxis
         else
           (let y = (''index_ret'', snd (last (cols df)));
                X = filter (\<lambda>c. list_ex (\<lambda>v. \<not> isna v) (snd c)) (butlast (cols df));
                df2 = dropna_any \<lparr>index = index df, cols = y # X\<rparr>
            in Inr (\<lparr>s_name = fst (hd (cols df2)), s_index = index df2,
                       s_values = snd (hd (cols df2))\<rparr>,
                    \<lparr>index = index df2, cols = tl (cols df2)\<rparr>)))"

text \<open>
  The Standardizer compares a computed standard deviation with \<open>0.0\<close>, so the rounding
  of binary64 decides a branch there. Its arithmetic therefore takes the rounding as a
  parameter \<open>rnd\<close>: \<open>rnd r\<close> is the double the exact result \<open>r\<close> is rounded to (an
  infinity when it overflows). Operations on NaN and the infinities are the unrounded
  ones above.
\<close>

type_synonym rounding = "real \<Rightarrow> fl"

definition r_add :: "rounding \<Rightarrow> fl \<Rightarrow> fl \<Rightarrow> fl" where
  "r_add rnd a b = (case (a, b) of (Num x, Num y) \<Rightarrow> rnd (x + y) | _ \<Rightarrow> fl_add a b)"

definition r_sub :: "rounding \<Rightarrow> fl \<Rightarrow> fl \<Rightarrow> fl" where
  "r_sub rnd a b = (case (a, b) of (Num x, Num y) \<Rightarrow> rnd (x - y) | _ \<Rightarrow> fl_sub a b)"

definition r_div :: "rounding \<Rightarrow> fl \<Rightarrow> fl \<Rightarrow> fl" where
  "r_div rnd a b =
     (case (a, b) of
        (Num x, Num y) \<Rightarrow> (if y \<noteq> 0 then rnd (x / y) else fl_div a b)
      | _ \<Rightarrow> fl_div a b)"

definition r_sq :: "rounding \<Rightarrow> fl \<Rightarrow> fl" where
  "r_sq rnd a = (case a of Num x \<Rightarrow> rnd (x * x) | _ \<Rightarrow> fl_sq a)"

definition r_sqrt :: "rounding \<Rightarrow> fl \<Rightarrow> fl" where
  "r_sqrt rnd a = (case a of Num x \<Rightarrow> (if 0 \<le> x then rnd (sqrt x) else NaN) | _ \<Rightarrow> fl_sqrt a)"

text \<open>\<^verbatim>\<open>mean\<close> and \<^verbatim>\<open>std\<close> of a column with pandas' defaults (\<^verbatim>\<open>skipna=True, ddof=1\<close>):
  NaN cells are left out; the mean of no cell is \<open>0/0\<close>; the standard deviation of
  fewer than two cells is NaN. Sums run from the first cell to the last.\<close>

definition nansum :: "rounding \<Rightarrow> fl list \<Rightarrow> fl" where
  "nansum rnd vals = foldl (r_add rnd) (Num 0) vals"

definition nanmean :: "rounding \<Rightarrow> fl list \<Rightarrow> fl" where
  "nanmean rnd c =
     (let vals = filter (\<lambda>v. \<not> isna v) c
      in r_div rnd (nansum rnd vals) (Num (real (length vals))))"

definition nanstd :: "rounding \<Rightarrow> fl list \<Rightarrow> fl" where
  "nanstd rnd c =
     (let vals = filter (\<lambda>v. \<not> isna v) c; count = length vals
      in if count \<le> 1 then NaN
         else
           (let avg = r_div rnd (nansum rnd vals) (Num (real count));
                sqr = map (\<lambda>v. r_sq rnd (r_sub rnd avg v)) vals
            in r_sqrt rnd (r_div rnd (nansum rnd sqr) (Num (real (count - 1))))))"

text \<open>\<^verbatim>\<open>X2 - X2.mean(axis=0)\<close> and \<^verbatim>\<open>X2 / X2.std(axis=0).replace(0.0, 1.0)\<close>, column by
  column.\<close>

definition demean_col :: "rounding \<Rightarrow> fl list \<Rightarrow> fl list" where
  "demean_col rnd c = map (\<lambda>v. r_sub rnd v (nanmean rnd c)) c"

definition replace0 :: "fl \<Rightarrow> fl" where
  "replace0 s = (if s = Num 0 then Num 1 else s)"

definition scale_col :: "rounding \<Rightarrow> fl list \<Rightarrow> fl list" where
  "scale_col rnd c = map (\<lambda>v. r_div rnd v (replace0 (nanstd rnd c))) c"

definition standardise_returns ::
  "rounding \<Rightarrow> series \<Rightarrow> frame \<Rightarrow> bool \<Rightarrow> bool \<Rightarrow> series \<times> frame" where
  "standardise_returns rnd y X demean scale =
     (let y2 = (if demean then y\<lparr>s_values := demean_col rnd (s_values y)\<rparr> else y);
          X2 = (if demean then map_cols (demean_col rnd) X else X);
          X3 = (if scale then map_cols (scale_col rnd) X2 else X2)
      in (y2, X3))"

text \<open>The specification's reading of the Aligner: a table restricted to the dates that
  satisfy \<open>P\<close>, rows kept in their order. \<open>intersect_dates\<close> above is the code; this is
  what it is compared with.\<close>

definition restrict_rows :: "frame \<Rightarrow> (date \<Rightarrow> bool) \<Rightarrow> frame" where
  "restrict_rows df P =
     \<lparr>index = filter P (index df),
      cols = map (\<lambda>(n, c). (n, map snd (filter (\<lambda>(d, v). P d) (zip (index df) c)))) (cols df)\<rparr>"

section \<open>Example data\<close>

text \<open>A four-day single-column panel with a gap of two after day 1, and the same panel
  padded with limit 1.\<close>

definition ex_small :: frame where
  "ex_small = \<lparr>index = [0, 1, 2, 3], cols = [(''A'', [NaN, Num 10, NaN, NaN])]\<rparr>"

definition ex_small_filled :: frame where
  "ex_small_filled = \<lparr>index = [0, 1, 2, 3], cols = [(''A'', [NaN, Num 10, Num 10, NaN])]\<rparr>"

text \<open>A source with three instruments, rows in descending date order as Stooq sends
  them: an index and asset \<open>AAA\<close> over days 0..3, asset \<open>BBB\<close> listed from day 2 only.
  Any other symbol has no data.\<close>

definition ex_reader :: reader where
  "ex_reader symbol start end' =
     (if symbol = ''IDX'' then
        \<lparr>index = [3, 2, 1, 0],
         cols = [(''Close'', [Num 103, Num 102, Num 101, Num 100]),
                 (''Volume'', [Num 7, Num 8, Num 9, Num 6])]\<rparr>
      else if symbol = ''AAA'' then
        \<lparr>index = [3, 2, 1, 0],
         cols = [(''Open'', [Num 52, Num 51, Num 50, Num 49]),
                 (''Close'', [Num 53, Num 52, Num 51, Num 50])]\<rparr>
      else if symbol = ''BBB'' then
        \<lparr>index = [3, 2],
         cols = [(''Adj Close'', [Num 21, Num 20]), (''Close'', [Num 42, Num 40])]\<rparr>
      else \<lparr>index = [], cols = []\<rparr>)"

text \<open>An asset panel over days 0..3 and an index table over days 1, 2, 3 and 5.\<close>

definition ex_assets :: frame where
  "ex_assets = \<lparr>index = [0, 1, 2, 3],
     cols = [(''AAA'', [Num 50, Num 51, Num 52, Num 53]), (''BBB'', [NaN, NaN, Num 20, Num 21])]\<rparr>"

definition ex_index :: frame where
  "ex_index = \<lparr>index = [1, 2, 3, 5], cols = [(''IDX'', [Num 101, Num 102, Num 103, Num 105])]\<rparr>"

text \<open>A daily run over the three-instrument source with a minimum of 3 observations, and
  a resampler (never called on a daily run).\<close>

definition ex_args :: args where
  "ex_args = \<lparr>arg_index = ''IDX'', arg_tickers = [''AAA'', ''BBB''], arg_start = ''2024-01-01'',
     arg_end = ''2024-01-04'', arg_freq = ''D'', arg_outdir = ''data'', arg_min_days = 3\<rparr>"

definition ex_resample :: "string \<Rightarrow> frame \<Rightarrow> frame" where
  "ex_resample rule df = df"

text \<open>The insufficiency scenario: an index and one asset over the ten days 0..9, and a run
  with the default minimum of 250 observations.\<close>

definition ex10_reader :: reader where
  "ex10_reader symbol start end' =
     (if symbol = ''IDX'' then
        \<lparr>index = [9, 8, 7, 6, 5, 4, 3, 2, 1, 0],
         cols = [(''Close'', [Num 109, Num 108, Num 107, Num 106, Num 105,
                              Num 104, Num 103, Num 102, Num 101, Num 100])]\<rparr>
      else if symbol = ''AAA'' then
        \<lparr>index = [9, 8, 7, 6, 5, 4, 3, 2, 1, 0],
         cols = [(''Close'', [Num 59, Num 58, Num 57, Num 56, Num 55,
                              Num 54, Num 53, Num 52, Num 51, Num 50])]\<rparr>
      else \<lparr>index = [], cols = []\<rparr>)"

definition ex10_args :: args where
  "ex10_args = \<lparr>arg_index = ''IDX'', arg_tickers = [''AAA''], arg_start = ''2024-01-01'',
     arg_end = ''2024-01-10'', arg_freq = ''D'', arg_outdir = ''data'', arg_min_days = 250\<rparr>"

definition ex10_assets :: frame where
  "ex10_assets = \<lparr>index = [0, 1, 2, 3, 4, 5, 6, 7, 8, 9],
     cols = [(''AAA'', [Num 50, Num 51, Num 52, Num 53, Num 54,
                        Num 55, Num 56, Num 57, Num 58, Num 59])]\<rparr>"

definition ex10_index :: frame where
  "ex10_index = \<lparr>index = [0, 1, 2, 3, 4, 5, 6, 7, 8, 9],
     cols = [(''IDX'', [Num 100, Num 101, Num 102, Num 103, Num 104,
                        Num 105, Num 106, Num 107, Num 108, Num 109])]\<rparr>"

text \<open>A one-row asset panel and the index series over the same day.\<close>

definition ex_one_row :: frame where
  "ex_one_row = \<lparr>index = [0], cols = [(''AAA'', [Num (1 / 100)])]\<rparr>"

definition ex_y_one :: series where
  "ex_y_one = \<lparr>s_name = ''index_ret'', s_index = [0], s_values = [Num (1 / 50)]\<rparr>"

text \<open>What the daily run over the three-instrument source produces, the same run with
  the single asset \<open>AAA\<close>, and what the loader makes of the first run's return tables.\<close>

definition ex_index_prices :: frame where
  "ex_index_prices = \<lparr>index = [0, 1, 2, 3], cols = [(''IDX'', [Num 100, Num 101, Num 102, Num 103])]\<rparr>"

definition ex_returns_assets :: frame where
  "ex_returns_assets = \<lparr>index = [1, 2, 3],
     cols = [(''AAA'', [Num (1 / 50), Num (1 / 51), Num (1 / 52)]),
             (''BBB'', [NaN, NaN, Num (1 / 20)])]\<rparr>"

definition ex_returns_index :: frame where
  "ex_returns_index = \<lparr>index = [1, 2, 3],
     cols = [(''IDX'', [Num (1 / 100), Num (1 / 101), Num (1 / 102)])]\<rparr>"

definition ex_out :: outputs where
  "ex_out = \<lparr>prices_assets = ex_assets, prices_index = ex_index_prices,
     returns_assets = ex_returns_assets, returns_index = ex_returns_index, n_observations = 3\<rparr>"

definition ex_args_single :: args where
  "ex_args_single = ex_args\<lparr>arg_tickers := [''AAA'']\<rparr>"

definition ex_single_assets :: frame where
  "ex_single_assets = \<lparr>index = [0, 1, 2, 3], cols = [(''AAA'', [Num 50, Num 51, Num 52, Num 53])]\<rparr>"

definition ex_single_returns :: frame where
  "ex_single_returns = \<lparr>index = [1, 2, 3],
     cols = [(''AAA'', [Num (1 / 50), Num (1 / 51), Num (1 / 52)])]\<rparr>"

definition ex_out_single :: outputs where
  "ex_out_single = \<lparr>prices_assets = ex_single_assets, prices_index = ex_index_prices,
     returns_assets = ex_single_returns, returns_index = ex_returns_index, n_observations = 3\<rparr>"

definition ex_loaded_y :: series where
  "ex_loaded_y = \<lparr>s_name = ''index_ret'', s_index = [3], s_values = [Num (1 / 102)]\<rparr>"

definition ex_loaded_X :: frame where
  "ex_loaded_X = \<lparr>index = [3], cols = [(''AAA'', [Num (1 / 52)]), (''BBB'', [Num (1 / 20)])]\<rparr>"

section \<open>GapFiller: properties\<close>

lemma pad_loop_length: "length (pad_loop n val fc xs) = length xs"
  by (induction xs arbitrary: val fc) auto

lemma pad_loop_defined:
  "i < length xs \<Longrightarrow> \<not> isna (xs ! i) \<Longrightarrow> pad_loop n val fc xs ! i = xs ! i"
proof (induction xs arbitrary: val fc i)
  case Nil
  then show ?case by simp
next
  case (Cons x xs)
  then show ?case by (cases i) auto
qed

text \<open>Inside a run of NaN cells that starts the list, the carried value is written
  while the count stays below the limit.\<close>

lemma pad_loop_run:
  "i < length xs \<Longrightarrow> \<forall>k\<le>i. isna (xs ! k) \<Longrightarrow>
   pad_loop n val fc xs ! i = (if fc + i < n then val else xs ! i)"
proof (induction xs arbitrary: fc i)
  case Nil
  then show ?case by simp
next
  case (Cons x xs)
  from Cons.prems(2) have x: "isna x" by force
  show ?case
  proof (cases i)
    case 0
    with x show ?thesis by auto
  next
    case (Suc i')
    from Cons.prems have a: "i' < length xs" and b: "\<forall>k\<le>i'. isna (xs ! k)"
      using Suc by auto
    show ?thesis using x Suc Cons.IH[OF a b] by auto
  qed
qed

text \<open>A NaN cell at \<open>i\<close> whose most recent defined cell is at \<open>j\<close>: filled exactly when
  the run \<open>j+1..i\<close> has at most \<open>n\<close> cells.\<close>

lemma pad_loop_since:
  "i < length xs \<Longrightarrow> j < i \<Longrightarrow> \<not> isna (xs ! j) \<Longrightarrow>
   \<forall>k. j < k \<and> k \<le> i \<longrightarrow> isna (xs ! k) \<Longrightarrow>
   pad_loop n val fc xs ! i = (if i - j \<le> n then xs ! j else xs ! i)"
proof (induction xs arbitrary: val fc i j)
  case Nil
  then show ?case by simp
next
  case (Cons x xs)
  from Cons.prems obtain i' where i: "i = Suc i'" by (cases i) auto
  show ?case
  proof (cases j)
    case 0
    with Cons.prems have x: "\<not> isna x" by simp
    have a: "i' < length xs" using Cons.prems i by simp
    have b: "\<forall>k\<le>i'. isna (xs ! k)" using Cons.prems(4) 0 i by auto
    show ?thesis using x 0 i pad_loop_run[OF a b, of n x 0] by auto
  next
    case (Suc j')
    have a: "i' < length xs" "j' < i'" "\<not> isna (xs ! j')" using Cons.prems i Suc by auto
    have b: "\<forall>k. j' < k \<and> k \<le> i' \<longrightarrow> isna (xs ! k)" using Cons.prems(4) i Suc by auto
    show ?thesis using i Suc Cons.IH[OF a b] by auto
  qed
qed

lemma isna_iff: "isna x \<longleftrightarrow> x = NaN"
  by (cases x) auto

lemma pad_inplace_eq: "c \<noteq> [] \<Longrightarrow> pad_inplace n c = pad_loop n (hd c) 0 c"
  by (cases c) (simp_all add: pad_inplace_def)

lemma pad_inplace_length: "length (pad_inplace n c) = length c"
proof (cases "c = []")
  case True
  then show ?thesis by (simp add: pad_inplace_def)
next
  case False
  then show ?thesis by (simp add: pad_inplace_eq pad_loop_length)
qed

lemma pad_inplace_defined:
  "i < length c \<Longrightarrow> \<not> isna (c ! i) \<Longrightarrow> pad_inplace n c ! i = c ! i"
  by (cases "c = []") (simp_all add: pad_inplace_eq pad_loop_defined)

lemma pad_inplace_since:
  assumes "i < length c" "j < i" "\<not> isna (c ! j)"
    and "\<forall>k. j < k \<and> k \<le> i \<longrightarrow> isna (c ! k)"
  shows "pad_inplace n c ! i = (if i - j \<le> n then c ! j else NaN)"
proof -
  from assms have "c ! i = NaN" by (simp add: isna_iff)
  moreover from assms have "c \<noteq> []" by auto
  ultimately show ?thesis
    using pad_loop_since[OF assms, of n "hd c" 0] by (simp add: pad_inplace_eq)
qed

lemma pad_inplace_leading:
  assumes "i < length c" and "\<forall>k\<le>i. isna (c ! k)"
  shows "pad_inplace n c ! i = NaN"
proof -
  from assms(1) have ne: "c \<noteq> []" by auto
  from assms have "isna (c ! 0)" "isna (c ! i)" by auto
  then have "hd c = NaN" "c ! i = NaN" using ne by (simp_all add: isna_iff hd_conv_nth)
  then show ?thesis
    using pad_loop_run[OF assms, of n "hd c" 0] ne by (simp add: pad_inplace_eq)
qed

lemma column_map_cols:
  "k < length (cols df) \<Longrightarrow> column (map_cols f df) k = f (column df k)"
  by (simp add: column_def map_cols_def split: prod.splits)

lemma index_map_cols: "index (map_cols f df) = index df"
  by (simp add: map_cols_def)

lemma length_cols_map_cols: "length (cols (map_cols f df)) = length (cols df)"
  by (simp add: map_cols_def)

lemma names_map: "map fst (map (\<lambda>(n, c). (n, f c)) cs) = map fst cs"
  by (induction cs) auto

lemma names_map_cols: "map fst (cols (map_cols f df)) = map fst (cols df)"
  by (auto simp: map_cols_def)

lemma ffill_Some_ok:
  "1 \<le> g \<Longrightarrow> g < 2 ^ 31 \<Longrightarrow> ffill df (Some g) = Inr (map_cols (pad_inplace (nat g)) df)"
  by (simp add: ffill_def)

text \<open>
  Claim C9. Whenever GapFiller returns (for every panel and every gap limit it accepts),
  the output has the input's date axis and column names, every column keeps its length,
  and every cell that is defined in the input is unchanged in the output.
\<close>

theorem forward_fill_limited_frame:
  assumes "forward_fill_limited df g = Inr out"
  shows "index out = index df \<and> map fst (cols out) = map fst (cols df) \<and>
    (\<forall>k<length (cols df). length (column out k) = length (column df k) \<and>
       (\<forall>i<length (column df k). \<not> isna (column df k ! i) \<longrightarrow>
          column out k ! i = column df k ! i))"
proof -
  from assms have out: "out = map_cols (pad_inplace (nat g)) df"
    by (auto simp: forward_fill_limited_def ffill_def split: if_splits)
  have "\<forall>k<length (cols df). column out k = pad_inplace (nat g) (column df k)"
    unfolding out by (simp add: column_map_cols)
  then show ?thesis
    by (auto simp: out names_map_cols index_map_cols pad_inplace_length pad_inplace_defined)
qed

text \<open>
  Claim C1, amended. For every panel and every gap limit \<open>1 \<le> g < 2^31\<close>, GapFiller
  succeeds and an undefined cell at row \<open>i\<close> whose most recent prior defined cell is at
  row \<open>j\<close> receives that value exactly when the run of undefined cells \<open>j+1..i\<close> has at
  most \<open>g\<close> cells; later cells of a longer run and leading undefined cells stay
  undefined. On a panel with at least one cell, \<open>g < 1\<close> (in particular \<open>g = 0\<close>) is
  rejected with pandas' \<^verbatim>\<open>ValueError("Limit must be greater than 0")\<close> and \<open>g \<ge> 2^31\<close>
  with \<^verbatim>\<open>OverflowError\<close>.
\<close>

theorem forward_fill_limited_fills:
  "(1 \<le> g \<and> g < 2 ^ 31 \<longrightarrow>
     (\<exists>out. forward_fill_limited df g = Inr out \<and> length (cols out) = length (cols df) \<and>
       (\<forall>k<length (cols df). \<forall>i<length (column df k). isna (column df k ! i) \<longrightarrow>
          (\<forall>j<i. \<not> isna (column df k ! j) \<and> (\<forall>m. j < m \<and> m \<le> i \<longrightarrow> isna (column df k ! m)) \<longrightarrow>
              column out k ! i = (if int (i - j) \<le> g then column df k ! j else NaN)) \<and>
          ((\<forall>m\<le>i. isna (column df k ! m)) \<longrightarrow> column out k ! i = NaN)))) \<and>
   (g < 1 \<and> list_ex (\<lambda>c. snd c \<noteq> []) (cols df) \<longrightarrow>
      forward_fill_limited df g = Inl ValueError_Limit) \<and>
   (2 ^ 31 \<le> g \<and> list_ex (\<lambda>c. snd c \<noteq> []) (cols df) \<longrightarrow>
      forward_fill_limited df g = Inl OverflowError)"
proof (intro conjI impI)
  assume gg: "1 \<le> g \<and> g < 2 ^ 31"
  then have g: "1 \<le> g" and g': "g < 2 ^ 31" by simp_all
  define out where "out = map_cols (pad_inplace (nat g)) df"
  have r: "forward_fill_limited df g = Inr out"
    using g g' by (simp add: forward_fill_limited_def ffill_Some_ok out_def)
  have c: "\<forall>k<length (cols df). column out k = pad_inplace (nat g) (column df k)"
    unfolding out_def by (simp add: column_map_cols)
  show "\<exists>out. forward_fill_limited df g = Inr out \<and> length (cols out) = length (cols df) \<and>
       (\<forall>k<length (cols df). \<forall>i<length (column df k). isna (column df k ! i) \<longrightarrow>
          (\<forall>j<i. \<not> isna (column df k ! j) \<and> (\<forall>m. j < m \<and> m \<le> i \<longrightarrow> isna (column df k ! m)) \<longrightarrow>
              column out k ! i = (if int (i - j) \<le> g then column df k ! j else NaN)) \<and>
          ((\<forall>m\<le>i. isna (column df k ! m)) \<longrightarrow> column out k ! i = NaN))"
  proof (intro exI[of _ out] conjI allI impI)
    show "forward_fill_limited df g = Inr out" by (rule r)
    show "length (cols out) = length (cols df)" by (simp add: out_def length_cols_map_cols)
  next
    fix k i j
    assume "k < length (cols df)" "i < length (column df k)" "isna (column df k ! i)" "j < i"
      "\<not> isna (column df k ! j) \<and> (\<forall>m. j < m \<and> m \<le> i \<longrightarrow> isna (column df k ! m))"
    then have "column out k ! i = (if i - j \<le> nat g then column df k ! j else NaN)"
      using c pad_inplace_since[of i "column df k" j "nat g"] by simp
    moreover have "(int (i - j) \<le> g) = (i - j \<le> nat g)" using g by linarith
    ultimately show "column out k ! i = (if int (i - j) \<le> g then column df k ! j else NaN)"
      by simp
  next
    fix k i
    assume "k < length (cols df)" "i < length (column df k)" "\<forall>m\<le>i. isna (column df k ! m)"
    then show "column out k ! i = NaN"
      using c by (simp add: pad_inplace_leading)
  qed
next
  assume "g < 1 \<and> list_ex (\<lambda>c. snd c \<noteq> []) (cols df)"
  then show "forward_fill_limited df g = Inl ValueError_Limit"
    by (simp add: forward_fill_limited_def ffill_def)
next
  assume "2 ^ 31 \<le> g \<and> list_ex (\<lambda>c. snd c \<noteq> []) (cols df)"
  then show "forward_fill_limited df g = Inl OverflowError"
    by (simp add: forward_fill_limited_def ffill_def)
qed

lemma ex_small_eval: "forward_fill_limited ex_small 1 = Inr ex_small_filled"
  by (simp add: forward_fill_limited_def ffill_def map_cols_def ex_small_def ex_small_filled_def pad_inplace_def)

text \<open>Claim C1 as stated fails at \<open>g = 0\<close>: the call raises instead of returning the
  panel unchanged.\<close>

theorem forward_fill_limited_identity_counterexample:
  "forward_fill_limited ex_small 0 \<noteq> Inr ex_small"
  by (simp add: forward_fill_limited_def ffill_def ex_small_def)

theorem forward_fill_limited_fills_witness:
  "(1::int) \<le> 1 \<and> (1::int) < 2 ^ 31 \<and> forward_fill_limited ex_small 1 = Inr ex_small_filled \<and>
   column ex_small_filled 0 ! 2 = column ex_small 0 ! 1 \<and>
   column ex_small_filled 0 ! 3 = NaN \<and> column ex_small_filled 0 ! 0 = NaN \<and>
   forward_fill_limited ex_small 0 = Inl ValueError_Limit \<and>
   forward_fill_limited ex_small (2 ^ 31) = Inl OverflowError"
proof -
  have c: "column ex_small 0 = [NaN, Num 10, NaN, NaN]" by (simp add: column_def ex_small_def)
  have n: "length (cols ex_small) = 1" by (simp add: ex_small_def)
  from forward_fill_limited_fills[of 1 ex_small] ex_small_eval
  have f: "\<forall>k<length (cols ex_small). \<forall>i<length (column ex_small k). isna (column ex_small k ! i) \<longrightarrow>
          (\<forall>j<i. \<not> isna (column ex_small k ! j) \<and> (\<forall>m. j < m \<and> m \<le> i \<longrightarrow> isna (column ex_small k ! m)) \<longrightarrow>
              column ex_small_filled k ! i = (if int (i - j) \<le> 1 then column ex_small k ! j else NaN)) \<and>
          ((\<forall>m\<le>i. isna (column ex_small k ! m)) \<longrightarrow> column ex_small_filled k ! i = NaN)"
    by simp
  have r2: "\<forall>m. 1 < m \<and> m \<le> 2 \<longrightarrow> isna (column ex_small 0 ! m)"
  proof (intro allI impI)
    fix m :: nat assume "1 < m \<and> m \<le> 2"
    then have "m = 2" by arith
    then show "isna (column ex_small 0 ! m)" by (simp add: c)
  qed
  have r3: "\<forall>m. 1 < m \<and> m \<le> 3 \<longrightarrow> isna (column ex_small 0 ! m)"
  proof (intro allI impI)
    fix m :: nat assume "1 < m \<and> m \<le> 3"
    then have "m = 2 \<or> m = 3" by arith
    then show "isna (column ex_small 0 ! m)" by (auto simp: c)
  qed
  have a: "column ex_small_filled 0 ! 2 = column ex_small 0 ! 1"
    using f[rule_format, of 0 2, THEN conjunct1, rule_format, of 1] r2 by (simp add: n c)
  have b: "column ex_small_filled 0 ! 3 = NaN"
    using f[rule_format, of 0 3, THEN conjunct1, rule_format, of 1] r3 by (simp add: n c)
  have d: "column ex_small_filled 0 ! 0 = NaN"
    using f[rule_format, of 0 0, THEN conjunct2] by (simp add: n c)
  have e: "forward_fill_limited ex_small 0 = Inl ValueError_Limit"
    using forward_fill_limited_fills[of 0 ex_small] by (simp add: ex_small_def)
  have o: "forward_fill_limited ex_small (2 ^ 31) = Inl OverflowError"
    using forward_fill_limited_fills[of "2 ^ 31" ex_small] by (simp add: ex_small_def)
  from a b d e o ex_small_eval show ?thesis by simp
qed

theorem forward_fill_limited_frame_witness:
  "forward_fill_limited ex_small 1 = Inr ex_small_filled \<and>
   index ex_small_filled = index ex_small \<and>
   column ex_small_filled 0 ! 1 = column ex_small 0 ! 1"
proof -
  have c: "column ex_small 0 = [NaN, Num 10, NaN, NaN]" by (simp add: column_def ex_small_def)
  have n: "length (cols ex_small) = 1" by (simp add: ex_small_def)
  from forward_fill_limited_frame[OF ex_small_eval]
  show ?thesis using ex_small_eval by (simp add: n c)
qed

section \<open>Resampler: properties\<close>

text \<open>
  Claim C3, amended. The Resampler compares the upper-cased tag: it fails (with the
  \<^verbatim>\<open>KeyError\<close> of the rule lookup, the spec's UnsupportedFrequencyError) exactly when the
  upper-cased tag is outside \<open>{D, DAILY, W, M}\<close>, and it returns its input unchanged for
  every tag that upper-cases to \<open>D\<close> or \<open>DAILY\<close>.
\<close>

theorem resample_if_needed_tags:
  "((\<exists>e. resample_if_needed rs df freq = Inl e) = (upper freq \<notin> {''D'', ''DAILY'', ''W'', ''M''})) \<and>
   (upper freq \<notin> {''D'', ''DAILY'', ''W'', ''M''} \<longrightarrow>
      resample_if_needed rs df freq = Inl (KeyError (upper freq))) \<and>
   (upper freq \<in> {''D'', ''DAILY''} \<longrightarrow> resample_if_needed rs df freq = Inr df)"
  by (auto simp: resample_if_needed_def)

theorem resample_if_needed_tags_witness:
  "upper ''X'' \<notin> {''D'', ''DAILY'', ''W'', ''M''} \<and>
   resample_if_needed (\<lambda>rule f. f) ex_small ''X'' = Inl (KeyError ''X'') \<and>
   upper ''daily'' \<in> {''D'', ''DAILY''} \<and>
   resample_if_needed (\<lambda>rule f. f) ex_small ''daily'' = Inr ex_small \<and>
   \<not> (\<exists>e. resample_if_needed (\<lambda>rule f. f) ex_small ''W'' = Inl e)"
proof -
  have a: "upper ''X'' \<notin> {''D'', ''DAILY'', ''W'', ''M''}" by (simp add: upper_def upper_char_def)
  have b: "upper ''daily'' \<in> {''D'', ''DAILY''}" by (simp add: upper_def upper_char_def)
  have c: "upper ''W'' \<in> {''D'', ''DAILY'', ''W'', ''M''}" by (simp add: upper_def upper_char_def)
  have x: "upper ''X'' = ''X''" by (simp add: upper_def upper_char_def)
  from resample_if_needed_tags[of "\<lambda>rule f. f" ex_small "''X''"] a x
  have 1: "resample_if_needed (\<lambda>rule f. f) ex_small ''X'' = Inl (KeyError ''X'')" by simp
  from resample_if_needed_tags[of "\<lambda>rule f. f" ex_small "''daily''"] b
  have 2: "resample_if_needed (\<lambda>rule f. f) ex_small ''daily'' = Inr ex_small" by blast
  from resample_if_needed_tags[of "\<lambda>rule f. f" ex_small "''W''"] c
  have 3: "\<not> (\<exists>e. resample_if_needed (\<lambda>rule f. f) ex_small ''W'' = Inl e)" by blast
  from a b 1 2 3 show ?thesis by blast
qed

text \<open>Claim C3 as stated fails: the tag \<open>DAILY\<close> is outside \<open>{D, W, M}\<close> and is accepted.\<close>

theorem resample_if_needed_daily_counterexample:
  "''DAILY'' \<notin> {''D'', ''W'', ''M''} \<and>
   resample_if_needed (\<lambda>rule f. f) ex_small ''DAILY'' = Inr ex_small"
  by (simp add: resample_if_needed_def upper_def upper_char_def)

section \<open>ReturnComputer: properties\<close>

text \<open>
  Claim C2, amended. For finite prices with \<open>P0 \<noteq> 0\<close>: the two-row column \<open>[P0, P1]\<close>
  yields the single row \<open>P1/P0 - 1\<close>; the three-row column \<open>[P0, undefined, P2]\<close> yields
  two rows, \<open>0\<close> at the row after \<open>P0\<close> (the undefined price is padded with \<open>P0\<close> before
  the division) and \<open>P2/P0 - 1\<close> at the last row.
\<close>

theorem to_simple_returns_rows:
  assumes "p0 \<noteq> 0"
  shows "to_simple_returns \<lparr>index = [d0, d1], cols = [(n, [Num p0, Num p1])]\<rparr> =
           \<lparr>index = [d1], cols = [(n, [Num (p1 / p0 - 1)])]\<rparr> \<and>
         to_simple_returns \<lparr>index = [d0, d1, d2], cols = [(n, [Num p0, NaN, Num p2])]\<rparr> =
           \<lparr>index = [d1, d2], cols = [(n, [Num 0, Num (p2 / p0 - 1)])]\<rparr>"
  using assms
  by (simp add: to_simple_returns_def pct_change_def pct_change_col_def map_cols_def shift1_def
      pad_inplace_def dropna_all_def take_rows_def fl_sub_def)

theorem to_simple_returns_rows_witness:
  "(100::real) \<noteq> 0 \<and>
   to_simple_returns \<lparr>index = [0, 1], cols = [(''A'', [Num 100, Num 101])]\<rparr> =
     \<lparr>index = [1], cols = [(''A'', [Num (101 / 100 - 1)])]\<rparr> \<and>
   to_simple_returns \<lparr>index = [0, 1, 2], cols = [(''A'', [Num 100, NaN, Num 102])]\<rparr> =
     \<lparr>index = [1, 2], cols = [(''A'', [Num 0, Num (102 / 100 - 1)])]\<rparr>"
  using to_simple_returns_rows[of 100 0 1 "''A''" 101 2 102] by simp

text \<open>Claim C2 as stated fails: the row after \<open>P0\<close> is defined (it is 0).\<close>

theorem to_simple_returns_middle_counterexample:
  "column (to_simple_returns \<lparr>index = [0, 1, 2], cols = [(''A'', [Num 100, NaN, Num 102])]\<rparr>) 0
     = [Num 0, Num (1 / 50)] \<and>
   \<not> isna (column (to_simple_returns
       \<lparr>index = [0, 1, 2], cols = [(''A'', [Num 100, NaN, Num 102])]\<rparr>) 0 ! 0)"
  by (simp add: to_simple_returns_def pct_change_def pct_change_col_def map_cols_def shift1_def
      pad_inplace_def dropna_all_def take_rows_def fl_sub_def column_def)

section \<open>PriceFetcher and PanelBuilder: properties\<close>

lemma ex_fetch_BBB:
  "fetch_stooq ex_reader ''BBB'' s e = Inr \<lparr>s_name = ''BBB'', s_index = [2, 3], s_values = [Num 20, Num 21]\<rparr>"
  by (simp add: fetch_stooq_def ex_reader_def empty_df_def pick_col_def columns_def)

lemma ex_fetch_AAA:
  "fetch_stooq ex_reader ''AAA'' s e = Inr \<lparr>s_name = ''AAA'', s_index = [0, 1, 2, 3], s_values = [Num 50, Num 51, Num 52, Num 53]\<rparr>"
  by (simp add: fetch_stooq_def ex_reader_def empty_df_def pick_col_def columns_def)

lemma ex_fetch_many:
  "fetch_many ex_reader [''AAA'', ''BBB''] s e =
     Inr \<lparr>index = [0, 1, 2, 3],
          cols = [(''AAA'', [Num 50, Num 51, Num 52, Num 53]), (''BBB'', [NaN, NaN, Num 20, Num 21])]\<rparr>"
  by (simp add: fetch_many_def ex_fetch_AAA ex_fetch_BBB concat_axis1_def unique_def reindex_def
      sort_index_def take_rows_def)

lemma pick_col_cases:
  "(''Adj Close'' \<in> set (columns df) \<longrightarrow> pick_col df = ''Adj Close'') \<and>
   (''Adj Close'' \<notin> set (columns df) \<and> ''AdjClose'' \<in> set (columns df) \<longrightarrow> pick_col df = ''AdjClose'') \<and>
   (''Adj Close'' \<notin> set (columns df) \<and> ''AdjClose'' \<notin> set (columns df) \<longrightarrow> pick_col df = ''Close'')"
  by (simp add: pick_col_def)

lemma map_of_wf_length:
  "wf_frame df \<Longrightarrow> map_of (cols df) k = Some c \<Longrightarrow> length c = length (index df)"
proof -
  assume wf: "wf_frame df" and m: "map_of (cols df) k = Some c"
  from m have "(k, c) \<in> set (cols df)" by (rule map_of_SomeD)
  with wf show ?thesis by (force simp: wf_frame_def list_all_iff)
qed

lemma sorted_rows_mset:
  "mset (zip (map fst (sort_key fst xs)) (map snd (sort_key fst xs))) = mset xs"
  by (simp add: zip_map_fst_snd)

text \<open>
  Claim C8. On a well-formed raw table, PriceFetcher fails with the no-data error
  exactly when the source's result is empty; a returned series is never empty, carries
  the symbol as its name, is sorted ascending by date, and holds exactly the rows of the
  first available column among \<open>Adj Close\<close>, \<open>AdjClose\<close>, \<open>Close\<close>.
\<close>

theorem fetch_stooq_result:
  assumes "wf_frame (rd symbol start end')"
  shows "((\<exists>m. fetch_stooq rd symbol start end' = Inl (ValueError_NoData m)) = empty_df (rd symbol start end')) \<and>
    (\<forall>s. fetch_stooq rd symbol start end' = Inr s \<longrightarrow>
       s_name s = symbol \<and> s_index s \<noteq> [] \<and> length (s_values s) = length (s_index s) \<and>
       sorted (s_index s) \<and>
       (\<exists>c. map_of (cols (rd symbol start end')) (pick_col (rd symbol start end')) = Some c \<and>
            mset (zip (s_index s) (s_values s)) = mset (zip (index (rd symbol start end')) c))) \<and>
    (''Adj Close'' \<in> set (columns (rd symbol start end')) \<longrightarrow>
       pick_col (rd symbol start end') = ''Adj Close'') \<and>
    (''Adj Close'' \<notin> set (columns (rd symbol start end')) \<and>
     ''AdjClose'' \<in> set (columns (rd symbol start end')) \<longrightarrow>
       pick_col (rd symbol start end') = ''AdjClose'') \<and>
    (''Adj Close'' \<notin> set (columns (rd symbol start end')) \<and>
     ''AdjClose'' \<notin> set (columns (rd symbol start end')) \<longrightarrow>
       pick_col (rd symbol start end') = ''Close'')"
proof -
  define df where "df = rd symbol start end'"
  have wf: "wf_frame df" using assms by (simp add: df_def)
  have 1: "(\<exists>m. fetch_stooq rd symbol start end' = Inl (ValueError_NoData m)) = empty_df df"
    by (auto simp: fetch_stooq_def df_def Let_def split: option.splits)
  have 2: "\<forall>s. fetch_stooq rd symbol start end' = Inr s \<longrightarrow>
       s_name s = symbol \<and> s_index s \<noteq> [] \<and> length (s_values s) = length (s_index s) \<and>
       sorted (s_index s) \<and>
       (\<exists>c. map_of (cols df) (pick_col df) = Some c \<and>
            mset (zip (s_index s) (s_values s)) = mset (zip (index df) c))"
  proof (intro allI impI)
    fix s assume r: "fetch_stooq rd symbol start end' = Inr s"
    then have ne: "\<not> empty_df df"
      by (auto simp: fetch_stooq_def df_def Let_def split: if_splits)
    from r ne obtain c where c: "map_of (cols df) (pick_col df) = Some c"
      and s: "s = \<lparr>s_name = symbol, s_index = map fst (sort_key fst (zip (index df) c)),
                 s_values = map snd (sort_key fst (zip (index df) c))\<rparr>"
      by (auto simp: fetch_stooq_def df_def[symmetric] Let_def split: option.splits)
    have len: "length c = length (index df)" using wf c by (rule map_of_wf_length)
    have "index df \<noteq> []" using ne by (simp add: empty_df_def)
    then have "length (s_index s) \<noteq> 0" using len by (simp add: s)
    then have "s_index s \<noteq> []" by simp
    moreover have "sorted (s_index s)" by (simp add: s sorted_sort_key)
    moreover have "mset (zip (s_index s) (s_values s)) = mset (zip (index df) c)"
      by (simp add: s sorted_rows_mset)
    ultimately show "s_name s = symbol \<and> s_index s \<noteq> [] \<and> length (s_values s) = length (s_index s) \<and>
       sorted (s_index s) \<and>
       (\<exists>c. map_of (cols df) (pick_col df) = Some c \<and>
            mset (zip (s_index s) (s_values s)) = mset (zip (index df) c))"
      using c by (simp add: s)
  qed
  show ?thesis using 1 2 pick_col_cases[of df] unfolding df_def by blast
qed

theorem fetch_stooq_result_witness:
  "wf_frame (ex_reader ''BBB'' [] []) \<and> \<not> empty_df (ex_reader ''BBB'' [] []) \<and>
   fetch_stooq ex_reader ''BBB'' [] [] =
     Inr \<lparr>s_name = ''BBB'', s_index = [2, 3], s_values = [Num 20, Num 21]\<rparr> \<and>
   pick_col (ex_reader ''BBB'' [] []) = ''Adj Close'' \<and>
   sorted (s_index \<lparr>s_name = ''BBB'', s_index = [2, 3], s_values = [Num 20, Num 21]\<rparr>) \<and>
   wf_frame (ex_reader ''ZZZ'' [] []) \<and> empty_df (ex_reader ''ZZZ'' [] []) \<and>
   (\<exists>m. fetch_stooq ex_reader ''ZZZ'' [] [] = Inl (ValueError_NoData m))"
proof -
  have w1: "wf_frame (ex_reader ''BBB'' [] [])" by (simp add: wf_frame_def ex_reader_def)
  have w2: "wf_frame (ex_reader ''ZZZ'' [] [])" by (simp add: wf_frame_def ex_reader_def)
  have e1: "\<not> empty_df (ex_reader ''BBB'' [] [])" by (simp add: empty_df_def ex_reader_def)
  have e2: "empty_df (ex_reader ''ZZZ'' [] [])" by (simp add: empty_df_def ex_reader_def)
  have a: "''Adj Close'' \<in> set (columns (ex_reader ''BBB'' [] []))"
    by (simp add: columns_def ex_reader_def)
  note t1 = fetch_stooq_result[of ex_reader "''BBB''" "[]" "[]", OF w1]
  note t2 = fetch_stooq_result[of ex_reader "''ZZZ''" "[]" "[]", OF w2]
  from t1 a have p: "pick_col (ex_reader ''BBB'' [] []) = ''Adj Close''" by blast
  from t1 ex_fetch_BBB[of "[]" "[]"]
  have s: "sorted (s_index \<lparr>s_name = ''BBB'', s_index = [2, 3], s_values = [Num 20, Num 21]\<rparr>)"
    by blast
  from t2 e2 have n: "\<exists>m. fetch_stooq ex_reader ''ZZZ'' [] [] = Inl (ValueError_NoData m)"
    by blast
  from w1 w2 e1 e2 p s n ex_fetch_BBB[of "[]" "[]"] show ?thesis by blast
qed

lemma fetch_stooq_name: "fetch_stooq rd symbol start end' = Inr s \<Longrightarrow> s_name s = symbol"
  by (auto simp: fetch_stooq_def Let_def split: if_splits option.splits)

lemma fetch_all_names: "fetch_all rd symbols start end' = Inr ss \<Longrightarrow> map s_name ss = symbols"
  by (induction symbols arbitrary: ss) (auto split: sum.splits dest: fetch_stooq_name)

lemma concat_axis1_columns: "concat_axis1 ss = Inr f \<Longrightarrow> columns f = map s_name ss"
  by (auto simp: concat_axis1_def columns_def Let_def split: list.splits if_splits)

lemma columns_take_rows: "columns (take_rows ps df) = columns df"
  by (auto simp: take_rows_def columns_def)

lemma columns_sort_index: "columns (sort_index df) = columns df"
  by (simp add: sort_index_def columns_take_rows)

text \<open>
  Claim C10. Whenever the panel build succeeds, the panel's column names are the
  requested identifiers, one column each, in the order of the request.
\<close>

theorem fetch_many_columns:
  assumes "fetch_many rd symbols start end' = Inr prices"
  shows "columns prices = symbols \<and> length (cols prices) = length symbols"
proof -
  from assms obtain ss f where a: "fetch_all rd symbols start end' = Inr ss"
    and b: "concat_axis1 ss = Inr f" and c: "prices = sort_index f"
    by (auto simp: fetch_many_def split: sum.splits)
  have "columns prices = symbols"
    using fetch_all_names[OF a] concat_axis1_columns[OF b] by (simp add: c columns_sort_index)
  moreover from this have "length (cols prices) = length symbols"
    by (metis columns_def length_map)
  ultimately show ?thesis by simp
qed

theorem fetch_many_columns_witness:
  "fetch_many ex_reader [''AAA'', ''BBB''] [] [] =
     Inr \<lparr>index = [0, 1, 2, 3],
          cols = [(''AAA'', [Num 50, Num 51, Num 52, Num 53]),
                  (''BBB'', [NaN, NaN, Num 20, Num 21])]\<rparr> \<and>
   columns \<lparr>index = [0, 1, 2, 3],
          cols = [(''AAA'', [Num 50, Num 51, Num 52, Num 53]),
                  (''BBB'', [NaN, NaN, Num 20, Num 21])]\<rparr> = [''AAA'', ''BBB'']"
  using fetch_many_columns[OF ex_fetch_many[of "[]" "[]"]] ex_fetch_many[of "[]" "[]"] by blast

section \<open>Aligner: properties\<close>

lemma filter_by_positions:
  "map ((!) xs) (filter (\<lambda>i. P (xs ! i)) [0..<length xs]) = filter P xs"
proof -
  have "filter P xs = filter P (map ((!) xs) [0..<length xs])" by (simp add: map_nth)
  also have "\<dots> = map ((!) xs) (filter (P \<circ> (!) xs) [0..<length xs])" by (simp only: filter_map)
  finally show ?thesis by (simp add: comp_def)
qed

lemma filter_eq_singleton: "distinct xs \<Longrightarrow> l \<in> set xs \<Longrightarrow> filter (\<lambda>d. d = l) xs = [l]"
  by (induction xs) (auto simp: filter_empty_conv)

lemma concat_label_rows:
  "distinct xs \<Longrightarrow> set ls \<subseteq> set xs \<Longrightarrow> concat (map (\<lambda>l. filter (\<lambda>d. d = l) xs) ls) = ls"
  by (induction ls) (auto simp: filter_eq_singleton)

lemma unique_distinct: "distinct xs \<Longrightarrow> unique xs = xs"
proof -
  assume "distinct xs"
  then have h: "remdups (rev xs) = rev xs" by (simp add: distinct_remdups_id)
  show ?thesis unfolding unique_def h by simp
qed

lemma set_unique: "set (unique xs) = set xs"
  by (simp add: unique_def)

lemma distinct_unique: "distinct (unique xs)"
  by (simp add: unique_def)

lemma index_take_rows: "index (take_rows ps df) = map ((!) (index df)) ps"
  by (simp add: take_rows_def)

lemma index_loc:
  "index (loc df labels) = concat (map (\<lambda>l. filter (\<lambda>d. d = l) (index df)) labels)"
proof -
  have "\<And>l. map ((!) (index df)) (filter (\<lambda>i. index df ! i = l) [0..<length (index df)]) =
      filter (\<lambda>d. d = l) (index df)"
    by (rule filter_by_positions)
  then show ?thesis
    by (simp add: loc_def index_take_rows map_concat comp_def)
qed

lemma label_positions:
  "distinct xs \<Longrightarrow>
   concat (map (\<lambda>l. filter (\<lambda>i. xs ! i = l) [0..<length xs]) (filter P xs)) =
   filter (\<lambda>i. P (xs ! i)) [0..<length xs]"
proof (induction xs rule: rev_induct)
  case Nil
  then show ?case by simp
next
  case (snoc x xs)
  then have d: "distinct xs" and nx: "x \<notin> set xs" by auto
  let ?n = "length xs"
  have old: "\<And>l. l \<in> set xs \<Longrightarrow>
      filter (\<lambda>i. (xs @ [x]) ! i = l) [0..<Suc ?n] = filter (\<lambda>i. xs ! i = l) [0..<?n]"
  proof -
    fix l assume "l \<in> set xs"
    with nx have "x \<noteq> l" by auto
    moreover have "filter (\<lambda>i. (xs @ [x]) ! i = l) [0..<?n] = filter (\<lambda>i. xs ! i = l) [0..<?n]"
      by (rule filter_cong) (auto simp: nth_append)
    ultimately show "filter (\<lambda>i. (xs @ [x]) ! i = l) [0..<Suc ?n] = filter (\<lambda>i. xs ! i = l) [0..<?n]"
      by simp
  qed
  have new: "filter (\<lambda>i. (xs @ [x]) ! i = x) [0..<Suc ?n] = [?n]"
  proof -
    have "filter (\<lambda>i. (xs @ [x]) ! i = x) [0..<?n] = []"
      using nx by (auto simp: filter_empty_conv nth_append)
    then show ?thesis by simp
  qed
  have r: "filter (\<lambda>i. P ((xs @ [x]) ! i)) [0..<?n] = filter (\<lambda>i. P (xs ! i)) [0..<?n]"
    by (rule filter_cong) (auto simp: nth_append)
  have l: "map (\<lambda>l. filter (\<lambda>i. (xs @ [x]) ! i = l) [0..<Suc ?n]) (filter P xs) =
           map (\<lambda>l. filter (\<lambda>i. xs ! i = l) [0..<?n]) (filter P xs)"
    by (rule map_cong) (auto simp: old simp del: upt_Suc)
  have "concat (map (\<lambda>l. filter (\<lambda>i. (xs @ [x]) ! i = l) [0..<Suc ?n]) (filter P (xs @ [x]))) =
        filter (\<lambda>i. P (xs ! i)) [0..<?n] @ (if P x then [?n] else [])"
    using snoc.IH[OF d] by (simp add: l new del: upt_Suc)
  also have "\<dots> = filter (\<lambda>i. P ((xs @ [x]) ! i)) [0..<Suc ?n]"
    by (simp add: r)
  finally show ?case by simp
qed

lemma masked_by_positions:
  assumes "length c = length xs"
  shows "map ((!) c) (filter (\<lambda>i. P (xs ! i)) [0..<length xs]) =
         map snd (filter (\<lambda>(d, v). P d) (zip xs c))"
proof -
  let ?zs = "zip xs c"
  have n: "length ?zs = length xs" using assms by simp
  have "filter (\<lambda>(d, v). P d) ?zs =
        map ((!) ?zs) (filter (\<lambda>i. (\<lambda>(d, v). P d) (?zs ! i)) [0..<length ?zs])"
    by (rule filter_by_positions[symmetric])
  also have "filter (\<lambda>i. (\<lambda>(d, v). P d) (?zs ! i)) [0..<length ?zs] =
             filter (\<lambda>i. P (xs ! i)) [0..<length xs]"
    unfolding n by (rule filter_cong) (auto simp: assms)
  finally have "map snd (filter (\<lambda>(d, v). P d) ?zs) =
      map (snd \<circ> (!) ?zs) (filter (\<lambda>i. P (xs ! i)) [0..<length xs])"
    by simp
  also have "\<dots> = map ((!) c) (filter (\<lambda>i. P (xs ! i)) [0..<length xs])"
    by (rule map_cong) (auto simp: assms)
  finally show ?thesis by simp
qed

lemma loc_restrict:
  assumes "distinct (index df)" "wf_frame df"
  shows "loc df (filter P (index df)) = restrict_rows df P"
proof -
  have "\<And>n c. (n, c) \<in> set (cols df) \<Longrightarrow>
      map ((!) c) (filter (\<lambda>i. P (index df ! i)) [0..<length (index df)]) =
      map snd (filter (\<lambda>(d, v). P d) (zip (index df) c))"
    using assms(2) by (intro masked_by_positions) (force simp: wf_frame_def list_all_iff)
  then have "map (\<lambda>(n, c). (n, map ((!) c) (filter (\<lambda>i. P (index df ! i)) [0..<length (index df)]))) (cols df)
      = map (\<lambda>(n, c). (n, map snd (filter (\<lambda>(d, v). P d) (zip (index df) c)))) (cols df)"
    by (intro map_cong) auto
  then show ?thesis
    by (simp add: loc_def label_positions[OF assms(1)] take_rows_def restrict_rows_def filter_by_positions)
qed

lemma intersection_distinct:
  "distinct a \<Longrightarrow> intersection a b = filter (\<lambda>d. d \<in> set b) a"
  by (simp add: intersection_def unique_distinct)

lemma common_symmetric:
  assumes "sorted_wrt (<) a" "sorted_wrt (<) (b :: date list)"
  shows "filter (\<lambda>d. d \<in> set b) a = filter (\<lambda>d. d \<in> set a) b"
proof (rule sorted_distinct_set_unique)
  show "sorted (filter (\<lambda>d. d \<in> set b) a)" using assms(1) by (simp add: strict_sorted_iff sorted_wrt_filter)
  show "sorted (filter (\<lambda>d. d \<in> set a) b)" using assms(2) by (simp add: strict_sorted_iff sorted_wrt_filter)
  show "distinct (filter (\<lambda>d. d \<in> set b) a)" using assms(1) by (simp add: strict_sorted_iff)
  show "distinct (filter (\<lambda>d. d \<in> set a) b)" using assms(2) by (simp add: strict_sorted_iff)
  show "set (filter (\<lambda>d. d \<in> set b) a) = set (filter (\<lambda>d. d \<in> set a) b)" by auto
qed

lemma index_intersect_dates:
  "index (fst (intersect_dates a b)) =
     concat (map (\<lambda>l. filter (\<lambda>d. d = l) (index a)) (intersection (index a) (index b)))"
  "index (snd (intersect_dates a b)) =
     concat (map (\<lambda>l. filter (\<lambda>d. d = l) (index b)) (intersection (index a) (index b)))"
  by (simp_all add: intersect_dates_def Let_def index_loc)

text \<open>
  Claim C7. For two well-formed tables whose date axes are strictly ascending, the
  Aligner returns each table restricted to the dates of the other; both results carry
  the same date axis, which is the set intersection of the two input axes in ascending
  order, and that axis is the same for any other two tables with the same two axes.
\<close>

theorem intersect_dates_common:
  assumes "sorted_wrt (<) (index a)" "sorted_wrt (<) (index b)" "wf_frame a" "wf_frame b"
  shows "intersect_dates a b =
           (restrict_rows a (\<lambda>d. d \<in> set (index b)), restrict_rows b (\<lambda>d. d \<in> set (index a))) \<and>
         index (fst (intersect_dates a b)) = index (snd (intersect_dates a b)) \<and>
         set (index (fst (intersect_dates a b))) = set (index a) \<inter> set (index b) \<and>
         sorted_wrt (<) (index (fst (intersect_dates a b))) \<and>
         (\<forall>a' b'. index a' = index a \<and> index b' = index b \<longrightarrow>
            index (fst (intersect_dates a' b')) = index (fst (intersect_dates a b)) \<and>
            index (snd (intersect_dates a' b')) = index (snd (intersect_dates a b)))"
proof -
  have da: "distinct (index a)" and db: "distinct (index b)"
    using assms by (simp_all add: strict_sorted_iff)
  let ?common = "filter (\<lambda>d. d \<in> set (index b)) (index a)"
  have c: "intersection (index a) (index b) = ?common" using da by (rule intersection_distinct)
  have c': "?common = filter (\<lambda>d. d \<in> set (index a)) (index b)"
    using assms(1,2) by (rule common_symmetric)
  have 1: "intersect_dates a b =
      (restrict_rows a (\<lambda>d. d \<in> set (index b)), restrict_rows b (\<lambda>d. d \<in> set (index a)))"
  proof -
    have la: "loc a ?common = restrict_rows a (\<lambda>d. d \<in> set (index b))"
      using da assms(3) by (rule loc_restrict)
    have "loc b (filter (\<lambda>d. d \<in> set (index a)) (index b)) = restrict_rows b (\<lambda>d. d \<in> set (index a))"
      using db assms(4) by (rule loc_restrict)
    then have lb: "loc b ?common = restrict_rows b (\<lambda>d. d \<in> set (index a))"
      by (simp only: c')
    show ?thesis unfolding intersect_dates_def Let_def c la lb by (rule refl)
  qed
  have 2: "index (fst (intersect_dates a b)) = ?common" by (simp add: 1 restrict_rows_def)
  have 3: "index (snd (intersect_dates a b)) = ?common" by (simp add: 1 restrict_rows_def c')
  have 4: "sorted_wrt (<) ?common" using assms(1) by (rule sorted_wrt_filter)
  have 5: "\<forall>a' b'. index a' = index a \<and> index b' = index b \<longrightarrow>
            index (fst (intersect_dates a' b')) = index (fst (intersect_dates a b)) \<and>
            index (snd (intersect_dates a' b')) = index (snd (intersect_dates a b))"
    by (simp add: index_intersect_dates)
  have 6: "set ?common = set (index a) \<inter> set (index b)" by auto
  show ?thesis using 1 2 3 4 5 6 by simp
qed

theorem intersect_dates_common_witness:
  "sorted_wrt (<) (index ex_assets) \<and> sorted_wrt (<) (index ex_index) \<and>
   wf_frame ex_assets \<and> wf_frame ex_index \<and>
   intersect_dates ex_assets ex_index =
     (\<lparr>index = [1, 2, 3],
       cols = [(''AAA'', [Num 51, Num 52, Num 53]), (''BBB'', [NaN, Num 20, Num 21])]\<rparr>,
      \<lparr>index = [1, 2, 3], cols = [(''IDX'', [Num 101, Num 102, Num 103])]\<rparr>) \<and>
   set (index (fst (intersect_dates ex_assets ex_index))) = {1, 2, 3}"
proof -
  have h: "sorted_wrt (<) (index ex_assets)" "sorted_wrt (<) (index ex_index)"
    "wf_frame ex_assets" "wf_frame ex_index"
    by (simp_all add: ex_assets_def ex_index_def wf_frame_def)
  have r: "restrict_rows ex_assets (\<lambda>d. d \<in> set (index ex_index)) =
      \<lparr>index = [1, 2, 3],
       cols = [(''AAA'', [Num 51, Num 52, Num 53]), (''BBB'', [NaN, Num 20, Num 21])]\<rparr>"
    "restrict_rows ex_index (\<lambda>d. d \<in> set (index ex_assets)) =
      \<lparr>index = [1, 2, 3], cols = [(''IDX'', [Num 101, Num 102, Num 103])]\<rparr>"
    by (simp_all add: restrict_rows_def ex_assets_def ex_index_def)
  have s: "set (index ex_assets) \<inter> set (index ex_index) = {1, 2, 3}"
    by (auto simp: ex_assets_def ex_index_def)
  from intersect_dates_common[OF h] h r s show ?thesis by simp
qed

section \<open>PipelineDriver: properties\<close>

lemmas eval_defs = fetch_stooq_def fetch_many_def empty_df_def pick_col_def columns_def
  concat_axis1_def unique_def reindex_def sort_index_def take_rows_def to_frame_def
  forward_fill_limited_def ffill_def map_cols_def pad_inplace_def upper_def upper_char_def
  resample_prices_def intersect_dates_def intersection_def loc_def Let_def

lemma ex10_aligned: "aligned_prices ex10_reader ex_resample ex10_args = Inr (ex10_assets, ex10_index)"
  by (simp add: aligned_prices_def ex10_reader_def ex10_args_def ex10_assets_def ex10_index_def eval_defs)

lemma ex_aligned:
  "aligned_prices ex_reader ex_resample ex_args =
     Inr (ex_assets, ex_index_prices)"
  by (simp add: aligned_prices_def ex_reader_def ex_args_def ex_assets_def ex_index_prices_def
      eval_defs)

text \<open>
  Claim C5. When the price-level alignment has produced its two panels: if the asset
  panel has fewer rows than the configured minimum, \<open>main\<close> fails with the too-few error
  carrying the actual and the required count, and returns no output (no return table is
  part of the result); with 10 rows and minimum 250 the error carries 10 and 250; if the
  row count meets the minimum, \<open>main\<close> does not fail and delivers its outputs.
\<close>

theorem main_min_days_gate:
  assumes "aligned_prices rd rs a = Inr (asset_prices, idx_prices)"
  shows "(int (len asset_prices) < arg_min_days a \<longrightarrow>
            main rd rs a = Inl (ValueError_TooFew (len asset_prices) (arg_min_days a))) \<and>
         (len asset_prices = 10 \<and> arg_min_days a = 250 \<longrightarrow>
            main rd rs a = Inl (ValueError_TooFew 10 250)) \<and>
         (arg_min_days a \<le> int (len asset_prices) \<longrightarrow>
            (\<exists>out. main rd rs a = Inr out \<and> prices_assets out = asset_prices \<and>
                   prices_index out = idx_prices))"
  using assms by (auto simp: main_def Let_def split: prod.splits)

theorem main_min_days_gate_witness:
  "aligned_prices ex10_reader ex_resample ex10_args = Inr (ex10_assets, ex10_index) \<and>
   len ex10_assets = 10 \<and> arg_min_days ex10_args = 250 \<and>
   main ex10_reader ex_resample ex10_args = Inl (ValueError_TooFew 10 250) \<and>
   arg_min_days ex_args \<le> int (len ex_assets) \<and>
   (\<exists>out. main ex_reader ex_resample ex_args = Inr out \<and> prices_assets out = ex_assets)"
proof -
  have l: "len ex10_assets = 10" by (simp add: len_def ex10_assets_def)
  have m: "arg_min_days ex10_args = 250" by (simp add: ex10_args_def)
  have g: "arg_min_days ex_args \<le> int (len ex_assets)"
    by (simp add: ex_args_def len_def ex_assets_def)
  from main_min_days_gate[OF ex10_aligned] l m
  have 1: "main ex10_reader ex_resample ex10_args = Inl (ValueError_TooFew 10 250)" by blast
  from main_min_days_gate[OF ex_aligned] g
  have 2: "\<exists>out. main ex_reader ex_resample ex_args = Inr out \<and> prices_assets out = ex_assets"
    by blast
  from ex10_aligned l m g 1 2 show ?thesis by blast
qed

section \<open>Standardizer: properties\<close>

lemma nanstd_short: "length c \<le> 1 \<Longrightarrow> nanstd rnd c = NaN"
proof -
  assume "length c \<le> 1"
  moreover have "length (filter (\<lambda>v. \<not> isna v) c) \<le> length c" by (rule length_filter_le)
  ultimately have "length (filter (\<lambda>v. \<not> isna v) c) \<le> 1" by linarith
  then show ?thesis by (simp add: nanstd_def Let_def)
qed

lemma r_div_NaN: "r_div rnd v NaN = NaN"
  by (cases v) (simp_all add: r_div_def)

lemma scale_col_single: "scale_col rnd [v] = [NaN]"
  by (simp add: scale_col_def nanstd_short replace0_def r_div_NaN)

text \<open>
  Claim C6 fails on the code. On the one-row panel the Standardizer with \<open>scale = true\<close>
  turns the finite cell into an undefined one, whatever the rounding and the demean
  flag: the standard deviation of a single observation is NaN, which
  \<^verbatim>\<open>replace(0.0, 1.0)\<close> leaves alone, and the division by it is NaN.
\<close>

theorem standardise_returns_one_row_undefined:
  "list_all isfinite (column ex_one_row 0) \<and>
   column (snd (standardise_returns rnd ex_y_one ex_one_row demean True)) 0 = [NaN]"
proof (cases demean)
  case True
  then show ?thesis
    by (simp add: standardise_returns_def ex_one_row_def map_cols_def column_def demean_col_def
        scale_col_single)
next
  case False
  then show ?thesis
    by (simp add: standardise_returns_def ex_one_row_def map_cols_def column_def scale_col_single)
qed

section \<open>AlignedDataset: the pipeline's output and the loader's\<close>

lemma dropna_any_defined:
  "\<forall>c\<in>set (cols (dropna_any df)). list_all (\<lambda>v. \<not> isna v) (snd c)"
  by (fastforce simp: dropna_any_def take_rows_def list_all_iff)

lemma cols_dropna_any_length: "length (cols (dropna_any df)) = length (cols df)"
  by (simp add: dropna_any_def take_rows_def)

lemma load_returns_defined:
  assumes "load_returns_from_csv index_csv assets_csv = Inr (y, X)"
  shows "s_index y = index X \<and> list_all (\<lambda>v. \<not> isna v) (s_values y) \<and>
         (\<forall>c\<in>set (cols X). list_all (\<lambda>v. \<not> isna v) (snd c))"
proof -
  define df where "df = join_inner (sort_index assets_csv) (sort_index index_csv)"
  define F where "F = \<lparr>index = index df,
      cols = (''index_ret'', snd (last (cols df))) #
             filter (\<lambda>c. list_ex (\<lambda>v. \<not> isna v) (snd c)) (butlast (cols df))\<rparr>"
  from assms have y: "y = \<lparr>s_name = fst (hd (cols (dropna_any F))), s_index = index (dropna_any F),
        s_values = snd (hd (cols (dropna_any F)))\<rparr>"
    and X: "X = \<lparr>index = index (dropna_any F), cols = tl (cols (dropna_any F))\<rparr>"
    by (auto simp: load_returns_from_csv_def Let_def df_def F_def split: if_splits)
  have "length (cols (dropna_any F)) = length (cols F)" by (rule cols_dropna_any_length)
  then have ne: "cols (dropna_any F) \<noteq> []" by (auto simp: F_def)
  then have h: "hd (cols (dropna_any F)) \<in> set (cols (dropna_any F))" by simp
  have t: "set (tl (cols (dropna_any F))) \<subseteq> set (cols (dropna_any F))"
    using ne by (auto dest: list.set_sel(2))
  show ?thesis
    using dropna_any_defined[of F] h t by (auto simp: y X)
qed

lemma distinct_sorted_rows:
  "distinct xs \<Longrightarrow> distinct (map fst (sort_key fst (zip xs c)))"
proof -
  assume d: "distinct xs"
  have "mset (map fst (sort_key fst (zip xs c))) = mset (map fst (zip xs c))" by simp
  moreover have "distinct (map fst (zip xs c))"
    using d by (simp add: map_fst_zip_take)
  ultimately show ?thesis by (metis mset_eq_imp_distinct_iff)
qed

lemma fetch_stooq_distinct:
  "distinct (index (rd symbol start end')) \<Longrightarrow> fetch_stooq rd symbol start end' = Inr s \<Longrightarrow>
   distinct (s_index s)"
  by (auto simp: fetch_stooq_def Let_def distinct_sorted_rows split: if_splits option.splits)

lemma fetch_all_distinct:
  "\<forall>t\<in>set symbols. distinct (index (rd t start end')) \<Longrightarrow>
   fetch_all rd symbols start end' = Inr ss \<Longrightarrow> \<forall>s\<in>set ss. distinct (s_index s)"
proof (induction symbols arbitrary: ss)
  case Nil
  then show ?case by simp
next
  case (Cons t symbols)
  from Cons.prems(2) obtain s ss' where s: "fetch_stooq rd t start end' = Inr s"
    and r: "fetch_all rd symbols start end' = Inr ss'" and e: "ss = s # ss'"
    by (auto split: sum.splits)
  have "distinct (s_index s)" using Cons.prems(1) s by (auto intro: fetch_stooq_distinct)
  moreover have "\<forall>s\<in>set ss'. distinct (s_index s)" using Cons.IH[OF _ r] Cons.prems(1) by simp
  ultimately show ?case by (simp add: e)
qed

lemma concat_axis1_distinct:
  "concat_axis1 ss = Inr f \<Longrightarrow> \<forall>s\<in>set ss. distinct (s_index s) \<Longrightarrow> distinct (index f)"
  by (auto simp: concat_axis1_def Let_def distinct_unique split: list.splits if_splits)

lemma index_sort_index_mset: "mset (index (sort_index df)) = mset (index df)"
proof -
  have "mset (index (sort_index df)) = mset (map ((!) (index df)) [0..<length (index df)])"
    by (simp add: sort_index_def index_take_rows)
  then show ?thesis by (simp add: map_nth)
qed

lemma sort_index_distinct: "distinct (index df) \<Longrightarrow> distinct (index (sort_index df))"
  using index_sort_index_mset[of df] by (metis mset_eq_imp_distinct_iff)

lemma fetch_many_distinct:
  assumes "\<forall>t\<in>set symbols. distinct (index (rd t start end'))"
    and "fetch_many rd symbols start end' = Inr prices"
  shows "distinct (index prices)"
proof -
  from assms(2) obtain ss f where a: "fetch_all rd symbols start end' = Inr ss"
    and b: "concat_axis1 ss = Inr f" and c: "prices = sort_index f"
    by (auto simp: fetch_many_def split: sum.splits)
  from fetch_all_distinct[OF assms(1) a] concat_axis1_distinct[OF b]
  show ?thesis by (simp add: c sort_index_distinct)
qed

lemma forward_fill_limited_index: "forward_fill_limited df g = Inr out \<Longrightarrow> index out = index df"
  by (auto simp: forward_fill_limited_def ffill_def index_map_cols split: if_splits)

lemma resample_if_needed_distinct:
  "\<forall>rule f. distinct (index f) \<longrightarrow> distinct (index (rs rule f)) \<Longrightarrow> distinct (index df) \<Longrightarrow>
   resample_if_needed rs df freq = Inr out \<Longrightarrow> distinct (index out)"
  by (auto simp: resample_if_needed_def split: if_splits option.splits)

lemma distinct_intersection: "distinct (intersection a b)"
  by (simp add: intersection_def distinct_unique)

lemma set_intersection: "set (intersection a b) = set a \<inter> set b"
  by (auto simp: intersection_def set_unique)

lemma intersect_dates_index_distinct:
  assumes "distinct (index a)" "distinct (index b)"
  shows "index (fst (intersect_dates a b)) = intersection (index a) (index b)"
    and "index (snd (intersect_dates a b)) = intersection (index a) (index b)"
  using assms by (simp_all add: index_intersect_dates concat_label_rows set_intersection)

lemma distinct_take_positions:
  assumes "distinct xs"
  shows "distinct (map ((!) xs) (filter Q [0..<length xs]))"
proof -
  have "inj_on ((!) xs) (set (filter Q [0..<length xs]))"
    using assms by (auto simp: inj_on_def nth_eq_iff_index_eq)
  then show ?thesis by (simp add: distinct_map)
qed

lemma to_simple_returns_distinct:
  "distinct (index df) \<Longrightarrow> distinct (index (to_simple_returns df))"
proof -
  assume d: "distinct (index df)"
  have i: "index (pct_change df) = index df" by (simp add: pct_change_def index_map_cols)
  show ?thesis
    unfolding to_simple_returns_def dropna_all_def index_take_rows i
    using d by (rule distinct_take_positions)
qed

lemma aligned_prices_distinct:
  assumes "distinct (index (rd (arg_index a) (arg_start a) (arg_end a)))"
    and "\<forall>t\<in>set (arg_tickers a). distinct (index (rd t (arg_start a) (arg_end a)))"
    and "\<forall>rule f. distinct (index f) \<longrightarrow> distinct (index (rs rule f))"
    and "aligned_prices rd rs a = Inr (asset_prices, idx_prices)"
  shows "distinct (index asset_prices) \<and> distinct (index idx_prices)"
proof -
  from assms(4) obtain s p0 p1 i1 p2 i2 where
    s: "fetch_stooq rd (arg_index a) (arg_start a) (arg_end a) = Inr s" and
    p0: "fetch_many rd (arg_tickers a) (arg_start a) (arg_end a) = Inr p0" and
    p1: "forward_fill_limited p0 3 = Inr p1" and
    i1: "forward_fill_limited (to_frame s) 3 = Inr i1" and
    r: "resample_prices rs (arg_freq a) p1 i1 = Inr (p2, i2)" and
    e: "(asset_prices, idx_prices) = intersect_dates p2 i2"
    unfolding aligned_prices_def by (auto split: sum.splits prod.splits)
  have ds: "distinct (s_index s)" using assms(1) s by (rule fetch_stooq_distinct)
  have d0: "distinct (index p0)" using assms(2) p0 by (rule fetch_many_distinct)
  have d1: "distinct (index p1)" using forward_fill_limited_index[OF p1] d0 by simp
  have e1: "distinct (index i1)" using forward_fill_limited_index[OF i1] ds by (simp add: to_frame_def)
  have d2: "distinct (index p2) \<and> distinct (index i2)"
  proof (cases "upper (arg_freq a) \<noteq> ''D''")
    case True
    with r obtain "resample_if_needed rs p1 (arg_freq a) = Inr p2"
      "resample_if_needed rs i1 (arg_freq a) = Inr i2"
      by (auto simp: resample_prices_def split: sum.splits)
    then show ?thesis
      using resample_if_needed_distinct[OF assms(3) d1] resample_if_needed_distinct[OF assms(3) e1]
      by blast
  next
    case False
    with r d1 e1 show ?thesis by (simp add: resample_prices_def)
  qed
  from e have "asset_prices = fst (intersect_dates p2 i2)" "idx_prices = snd (intersect_dates p2 i2)"
    by (metis fst_conv, metis snd_conv)
  then show ?thesis
    using d2 by (simp add: intersect_dates_index_distinct distinct_intersection)
qed

lemma main_returns_axis:
  assumes "distinct (index (rd (arg_index a) (arg_start a) (arg_end a)))"
    and "\<forall>t\<in>set (arg_tickers a). distinct (index (rd t (arg_start a) (arg_end a)))"
    and "\<forall>rule f. distinct (index f) \<longrightarrow> distinct (index (rs rule f))"
    and "main rd rs a = Inr out"
  shows "index (returns_assets out) = index (returns_index out)"
proof -
  from assms(4) obtain ap ip where al: "aligned_prices rd rs a = Inr (ap, ip)"
    and ra: "returns_assets out = fst (intersect_dates (to_simple_returns ap) (to_simple_returns ip))"
    and ri: "returns_index out = snd (intersect_dates (to_simple_returns ap) (to_simple_returns ip))"
    by (auto simp: main_def Let_def split: sum.splits prod.splits if_splits)
  from aligned_prices_distinct[OF assms(1,2,3) al]
  have "distinct (index (to_simple_returns ap))" "distinct (index (to_simple_returns ip))"
    by (simp_all add: to_simple_returns_distinct)
  then show ?thesis by (simp add: ra ri intersect_dates_index_distinct)
qed

lemmas returns_defs = to_simple_returns_def pct_change_def pct_change_col_def shift1_def
  dropna_all_def fl_sub_def map_cols_def pad_inplace_def take_rows_def Let_def

lemma ex_returns_a: "to_simple_returns ex_assets = ex_returns_assets"
  by (simp add: ex_assets_def ex_returns_assets_def returns_defs)

lemma ex_returns_i: "to_simple_returns ex_index_prices = ex_returns_index"
  by (simp add: ex_index_prices_def ex_returns_index_def returns_defs)

lemma ex_realign: "intersect_dates ex_returns_assets ex_returns_index = (ex_returns_assets, ex_returns_index)"
  by (simp add: intersect_dates_def intersection_def unique_def loc_def take_rows_def Let_def
      ex_returns_assets_def ex_returns_index_def)

lemma ex_main: "main ex_reader ex_resample ex_args = Inr ex_out"
proof -
  have l: "len ex_assets = 4" "len ex_returns_assets = 3"
    by (simp_all add: len_def ex_assets_def ex_returns_assets_def)
  have m: "arg_min_days ex_args = 3" by (simp add: ex_args_def)
  show ?thesis
    unfolding main_def ex_aligned
    by (simp add: Let_def l m ex_returns_a ex_returns_i ex_realign ex_out_def)
qed

lemma ex_sorted_tables:
  "sort_index ex_returns_index = ex_returns_index" "sort_index ex_returns_assets = ex_returns_assets"
  by (simp_all add: sort_index_def take_rows_def ex_returns_assets_def ex_returns_index_def)

lemma ex_joined:
  "join_inner ex_returns_assets ex_returns_index =
     \<lparr>index = [1, 2, 3],
      cols = [(''AAA'', [Num (1 / 50), Num (1 / 51), Num (1 / 52)]),
              (''BBB'', [NaN, NaN, Num (1 / 20)]),
              (''IDX'', [Num (1 / 100), Num (1 / 101), Num (1 / 102)])]\<rparr>"
  by (simp add: join_inner_def columns_def ex_returns_assets_def ex_returns_index_def Let_def)

lemma ex_load:
  "load_returns_from_csv ex_returns_index ex_returns_assets = Inr (ex_loaded_y, ex_loaded_X)"
  by (simp add: load_returns_from_csv_def ex_sorted_tables ex_joined dropna_any_def take_rows_def
      ex_loaded_y_def ex_loaded_X_def Let_def)

lemma wf_take_rows: "wf_frame (take_rows ps df)"
  by (auto simp: wf_frame_def take_rows_def list_all_iff)

lemma length_cols_take_rows: "length (cols (take_rows ps df)) = length (cols df)"
  by (simp add: take_rows_def)

lemma take_rows_row_defined:
  assumes "k < length ps" "list_ex (\<lambda>c. \<not> isna (snd c ! (ps ! k))) (cols df)"
  shows "list_ex (\<lambda>c. \<not> isna (snd c ! k)) (cols (take_rows ps df))"
proof -
  from assms(2) obtain n c where c: "(n, c) \<in> set (cols df)" "\<not> isna (c ! (ps ! k))"
    by (auto simp: list_ex_iff)
  then have "(n, map ((!) c) ps) \<in> set (cols (take_rows ps df))"
    by (force simp: take_rows_def)
  moreover have "\<not> isna (map ((!) c) ps ! k)" using assms(1) c(2) by simp
  ultimately show ?thesis by (force simp: list_ex_iff)
qed

lemma dropna_all_rows:
  "\<forall>k<length (index (dropna_all df)). list_ex (\<lambda>c. \<not> isna (snd c ! k)) (cols (dropna_all df))"
proof (intro allI impI)
  fix k assume k: "k < length (index (dropna_all df))"
  let ?ps = "filter (\<lambda>i. list_ex (\<lambda>c. \<not> isna (snd c ! i)) (cols df)) [0..<length (index df)]"
  from k have kk: "k < length ?ps" by (simp add: dropna_all_def index_take_rows)
  then have "?ps ! k \<in> set ?ps" by (rule nth_mem)
  then have "list_ex (\<lambda>c. \<not> isna (snd c ! (?ps ! k))) (cols df)" by simp
  with kk show "list_ex (\<lambda>c. \<not> isna (snd c ! k)) (cols (dropna_all df))"
    unfolding dropna_all_def by (rule take_rows_row_defined)
qed

lemma loc_rows:
  assumes "\<forall>k<length (index df). list_ex (\<lambda>c. \<not> isna (snd c ! k)) (cols df)"
  shows "\<forall>k<length (index (loc df labels)). list_ex (\<lambda>c. \<not> isna (snd c ! k)) (cols (loc df labels))"
proof (intro allI impI)
  fix k assume k: "k < length (index (loc df labels))"
  let ?ps = "concat (map (\<lambda>l. filter (\<lambda>i. index df ! i = l) [0..<length (index df)]) labels)"
  from k have kk: "k < length ?ps" by (simp add: loc_def index_take_rows)
  then have "?ps ! k \<in> set ?ps" by (rule nth_mem)
  then have "?ps ! k < length (index df)" by auto
  with assms have "list_ex (\<lambda>c. \<not> isna (snd c ! (?ps ! k))) (cols df)" by blast
  with kk show "list_ex (\<lambda>c. \<not> isna (snd c ! k)) (cols (loc df labels))"
    unfolding loc_def by (rule take_rows_row_defined)
qed

lemma single_column_defined:
  assumes "wf_frame df" "length (cols df) = 1"
    and "\<forall>k<length (index df). list_ex (\<lambda>c. \<not> isna (snd c ! k)) (cols df)"
  shows "\<forall>c\<in>set (cols df). list_all (\<lambda>v. \<not> isna v) (snd c)"
proof -
  from assms(2) obtain c where c: "cols df = [c]" by (cases "cols df") auto
  from assms(1) have l: "length (snd c) = length (index df)" by (simp add: wf_frame_def c)
  from assms(3) have "\<forall>k<length (snd c). \<not> isna (snd c ! k)" by (simp add: c l)
  then show ?thesis by (simp add: c list_all_length)
qed

lemma returns_rows:
  "\<forall>k<length (index (fst (intersect_dates (to_simple_returns a) (to_simple_returns b)))).
      list_ex (\<lambda>c. \<not> isna (snd c ! k)) (cols (fst (intersect_dates (to_simple_returns a) (to_simple_returns b))))"
  "\<forall>k<length (index (snd (intersect_dates (to_simple_returns a) (to_simple_returns b)))).
      list_ex (\<lambda>c. \<not> isna (snd c ! k)) (cols (snd (intersect_dates (to_simple_returns a) (to_simple_returns b))))"
  unfolding intersect_dates_def Let_def fst_conv snd_conv to_simple_returns_def
  by (rule loc_rows, rule dropna_all_rows)+

lemma returns_cols:
  "length (cols (fst (intersect_dates (to_simple_returns a) (to_simple_returns b)))) = length (cols a)"
  "length (cols (snd (intersect_dates (to_simple_returns a) (to_simple_returns b)))) = length (cols b)"
  by (simp_all add: intersect_dates_def Let_def loc_def to_simple_returns_def dropna_all_def
      length_cols_take_rows pct_change_def length_cols_map_cols)

lemma returns_wf:
  "wf_frame (fst (intersect_dates x y))" "wf_frame (snd (intersect_dates x y))"
  by (simp_all add: intersect_dates_def Let_def loc_def wf_take_rows)

lemma forward_fill_limited_cols:
  "forward_fill_limited df g = Inr out \<Longrightarrow> length (cols out) = length (cols df)"
  by (auto simp: forward_fill_limited_def ffill_def length_cols_map_cols split: if_splits)

lemma resample_if_needed_cols:
  "\<forall>rule f. length (cols (rs rule f)) = length (cols f) \<Longrightarrow>
   resample_if_needed rs df freq = Inr out \<Longrightarrow> length (cols out) = length (cols df)"
  by (auto simp: resample_if_needed_def split: if_splits option.splits)

lemma aligned_prices_index_cols:
  assumes "aligned_prices rd rs a = Inr (asset_prices, idx_prices)"
    and "upper (arg_freq a) = ''D'' \<or> (\<forall>rule f. length (cols (rs rule f)) = length (cols f))"
  shows "length (cols idx_prices) = 1"
proof -
  from assms(1) obtain s p0 p1 i1 p2 i2 where
    i1: "forward_fill_limited (to_frame s) 3 = Inr i1" and
    r: "resample_prices rs (arg_freq a) p1 i1 = Inr (p2, i2)" and
    e: "(asset_prices, idx_prices) = intersect_dates p2 i2"
    unfolding aligned_prices_def by (auto split: sum.splits prod.splits)
  have c1: "length (cols i1) = 1" using forward_fill_limited_cols[OF i1] by (simp add: to_frame_def)
  have c2: "length (cols i2) = 1"
  proof (cases "upper (arg_freq a) = ''D''")
    case True
    with r c1 show ?thesis by (simp add: resample_prices_def)
  next
    case False
    with assms(2) have k: "\<forall>rule f. length (cols (rs rule f)) = length (cols f)" by blast
    from False r have "resample_if_needed rs i1 (arg_freq a) = Inr i2"
      by (auto simp: resample_prices_def split: sum.splits)
    from resample_if_needed_cols[OF k this] c1 show ?thesis by simp
  qed
  from e have "idx_prices = snd (intersect_dates p2 i2)" by (metis snd_conv)
  then show ?thesis using c2
    by (simp add: intersect_dates_def Let_def loc_def length_cols_take_rows)
qed

lemma main_returns_defined:
  assumes "main rd rs a = Inr out"
  shows "\<forall>k<length (index (returns_assets out)).
           list_ex (\<lambda>c. \<not> isna (snd c ! k)) (cols (returns_assets out))"
    and "length (cols (returns_assets out)) = 1 \<longrightarrow>
           (\<forall>c\<in>set (cols (returns_assets out)). list_all (\<lambda>v. \<not> isna v) (snd c))"
    and "upper (arg_freq a) = ''D'' \<or> (\<forall>rule f. length (cols (rs rule f)) = length (cols f)) \<Longrightarrow>
           \<forall>c\<in>set (cols (returns_index out)). list_all (\<lambda>v. \<not> isna v) (snd c)"
proof -
  from assms obtain ap ip where al: "aligned_prices rd rs a = Inr (ap, ip)"
    and ra: "returns_assets out = fst (intersect_dates (to_simple_returns ap) (to_simple_returns ip))"
    and ri: "returns_index out = snd (intersect_dates (to_simple_returns ap) (to_simple_returns ip))"
    by (auto simp: main_def Let_def split: sum.splits prod.splits if_splits)
  show 1: "\<forall>k<length (index (returns_assets out)).
           list_ex (\<lambda>c. \<not> isna (snd c ! k)) (cols (returns_assets out))"
    unfolding ra by (rule returns_rows)
  show "length (cols (returns_assets out)) = 1 \<longrightarrow>
           (\<forall>c\<in>set (cols (returns_assets out)). list_all (\<lambda>v. \<not> isna v) (snd c))"
  proof
    assume "length (cols (returns_assets out)) = 1"
    moreover have "wf_frame (returns_assets out)" unfolding ra by (rule returns_wf)
    ultimately show "\<forall>c\<in>set (cols (returns_assets out)). list_all (\<lambda>v. \<not> isna v) (snd c)"
      using 1 by (intro single_column_defined)
  qed
  assume h: "upper (arg_freq a) = ''D'' \<or> (\<forall>rule f. length (cols (rs rule f)) = length (cols f))"
  have "length (cols ip) = 1" using al h by (rule aligned_prices_index_cols)
  then have "length (cols (returns_index out)) = 1" by (simp add: ri returns_cols)
  moreover have "wf_frame (returns_index out)" unfolding ri by (rule returns_wf)
  moreover have "\<forall>k<length (index (returns_index out)).
           list_ex (\<lambda>c. \<not> isna (snd c ! k)) (cols (returns_index out))"
    unfolding ri by (rule returns_rows)
  ultimately show "\<forall>c\<in>set (cols (returns_index out)). list_all (\<lambda>v. \<not> isna v) (snd c)"
    by (intro single_column_defined)
qed

lemma ex_single_aligned:
  "aligned_prices ex_reader ex_resample ex_args_single = Inr (ex_single_assets, ex_index_prices)"
  by (simp add: aligned_prices_def ex_reader_def ex_args_single_def ex_args_def ex_single_assets_def
      ex_index_prices_def eval_defs)

lemma ex_single_returns_a: "to_simple_returns ex_single_assets = ex_single_returns"
  by (simp add: ex_single_assets_def ex_single_returns_def returns_defs)

lemma ex_single_realign:
  "intersect_dates ex_single_returns ex_returns_index = (ex_single_returns, ex_returns_index)"
  by (simp add: intersect_dates_def intersection_def unique_def loc_def take_rows_def Let_def
      ex_single_returns_def ex_returns_index_def)

lemma ex_main_single: "main ex_reader ex_resample ex_args_single = Inr ex_out_single"
proof -
  have l: "len ex_single_assets = 4" "len ex_single_returns = 3"
    by (simp_all add: len_def ex_single_assets_def ex_single_returns_def)
  have m: "arg_min_days ex_args_single = 3" by (simp add: ex_args_single_def ex_args_def)
  show ?thesis
    unfolding main_def ex_single_aligned
    by (simp add: Let_def l m ex_single_returns_a ex_returns_i ex_single_realign ex_out_single_def)
qed

text \<open>
  Claim C4, amended. What \<open>main\<close> delivers: when the source's dates are unique per
  instrument and resampling keeps dates unique, the index return table and the asset
  return table share exactly the same ordered date axis; on a daily run, or whenever
  resampling keeps the number of columns, no undefined cell remains in the index return
  table; no row of the asset return table is entirely undefined, so an asset table with
  a single column has no undefined cell either (a table of several assets can keep
  undefined cells; see the counterexample). The pair the loader delivers shares one
  date axis and has no undefined cell in the index series or in any asset column.
\<close>

theorem aligned_dataset_invariant:
  "(main rd rs a = Inr out \<and>
    distinct (index (rd (arg_index a) (arg_start a) (arg_end a))) \<and>
    (\<forall>t\<in>set (arg_tickers a). distinct (index (rd t (arg_start a) (arg_end a)))) \<and>
    (\<forall>rule f. distinct (index f) \<longrightarrow> distinct (index (rs rule f))) \<longrightarrow>
      index (returns_assets out) = index (returns_index out)) \<and>
   (main rd rs a = Inr out \<and>
    (upper (arg_freq a) = ''D'' \<or> (\<forall>rule f. length (cols (rs rule f)) = length (cols f))) \<longrightarrow>
      (\<forall>c\<in>set (cols (returns_index out)). list_all (\<lambda>v. \<not> isna v) (snd c))) \<and>
   (main rd rs a = Inr out \<longrightarrow>
      (\<forall>k<length (index (returns_assets out)).
          list_ex (\<lambda>c. \<not> isna (snd c ! k)) (cols (returns_assets out))) \<and>
      (length (cols (returns_assets out)) = 1 \<longrightarrow>
          (\<forall>c\<in>set (cols (returns_assets out)). list_all (\<lambda>v. \<not> isna v) (snd c)))) \<and>
   (load_returns_from_csv index_csv assets_csv = Inr (y, X) \<longrightarrow>
      s_index y = index X \<and> list_all (\<lambda>v. \<not> isna v) (s_values y) \<and>
      (\<forall>c\<in>set (cols X). list_all (\<lambda>v. \<not> isna v) (snd c)))"
  using main_returns_axis[of rd a rs out] main_returns_defined[of rd rs a out]
    load_returns_defined[of index_csv assets_csv y X]
  by blast

theorem aligned_dataset_invariant_witness:
  "main ex_reader ex_resample ex_args = Inr ex_out \<and>
   distinct (index (ex_reader (arg_index ex_args) (arg_start ex_args) (arg_end ex_args))) \<and>
   upper (arg_freq ex_args) = ''D'' \<and>
   index (returns_assets ex_out) = index (returns_index ex_out) \<and>
   index (returns_assets ex_out) = [1, 2, 3] \<and>
   list_all (\<lambda>v. \<not> isna v) (column (returns_index ex_out) 0) \<and>
   list_ex (\<lambda>c. \<not> isna (snd c ! 0)) (cols (returns_assets ex_out)) \<and>
   main ex_reader ex_resample ex_args_single = Inr ex_out_single \<and>
   length (cols (returns_assets ex_out_single)) = 1 \<and>
   list_all (\<lambda>v. \<not> isna v) (column (returns_assets ex_out_single) 0) \<and>
   load_returns_from_csv ex_returns_index ex_returns_assets = Inr (ex_loaded_y, ex_loaded_X) \<and>
   s_index ex_loaded_y = index ex_loaded_X \<and>
   list_all (\<lambda>v. \<not> isna v) (s_values ex_loaded_y) \<and>
   list_all (\<lambda>v. \<not> isna v) (column ex_loaded_X 0) \<and>
   list_all (\<lambda>v. \<not> isna v) (column ex_loaded_X 1)"
proof -
  have d: "distinct (index (ex_reader (arg_index ex_args) (arg_start ex_args) (arg_end ex_args)))"
    by (simp add: ex_reader_def ex_args_def)
  have t: "\<forall>t\<in>set (arg_tickers ex_args).
      distinct (index (ex_reader t (arg_start ex_args) (arg_end ex_args)))"
    by (simp add: ex_reader_def ex_args_def)
  have r: "\<forall>rule f. distinct (index f) \<longrightarrow> distinct (index (ex_resample rule f))"
    by (simp add: ex_resample_def)
  have u: "upper (arg_freq ex_args) = ''D''"
    by (simp add: ex_args_def upper_def upper_char_def)
  note inv = aligned_dataset_invariant[of ex_reader ex_resample ex_args ex_out
      ex_returns_index ex_returns_assets ex_loaded_y ex_loaded_X]
  note inv1 = aligned_dataset_invariant[of ex_reader ex_resample ex_args_single ex_out_single
      ex_returns_index ex_returns_assets ex_loaded_y ex_loaded_X]
  from inv ex_main d t r have 1: "index (returns_assets ex_out) = index (returns_index ex_out)"
    by blast
  from inv ex_load have 2: "s_index ex_loaded_y = index ex_loaded_X"
    and 3: "list_all (\<lambda>v. \<not> isna v) (s_values ex_loaded_y)"
    and 4: "\<forall>c\<in>set (cols ex_loaded_X). list_all (\<lambda>v. \<not> isna v) (snd c)"
    by blast+
  have c: "cols ex_loaded_X ! 0 \<in> set (cols ex_loaded_X)" "cols ex_loaded_X ! 1 \<in> set (cols ex_loaded_X)"
    by (simp_all add: ex_loaded_X_def)
  from 4 c have 5: "list_all (\<lambda>v. \<not> isna v) (column ex_loaded_X 0)"
    "list_all (\<lambda>v. \<not> isna v) (column ex_loaded_X 1)"
    unfolding column_def by blast+
  have 6: "index (returns_assets ex_out) = [1, 2, 3]"
    by (simp add: ex_out_def ex_returns_assets_def)
  from inv ex_main u
  have 7: "\<forall>c\<in>set (cols (returns_index ex_out)). list_all (\<lambda>v. \<not> isna v) (snd c)"
    by blast
  have "cols (returns_index ex_out) ! 0 \<in> set (cols (returns_index ex_out))"
    by (simp add: ex_out_def ex_returns_index_def)
  with 7 have 8: "list_all (\<lambda>v. \<not> isna v) (column (returns_index ex_out) 0)"
    unfolding column_def by blast
  from inv ex_main
  have 9: "\<forall>k<length (index (returns_assets ex_out)).
      list_ex (\<lambda>c. \<not> isna (snd c ! k)) (cols (returns_assets ex_out))"
    by blast
  have "0 < length (index (returns_assets ex_out))" by (simp add: 6)
  with 9 have 10: "list_ex (\<lambda>c. \<not> isna (snd c ! 0)) (cols (returns_assets ex_out))" by blast
  have 11: "length (cols (returns_assets ex_out_single)) = 1"
    by (simp add: ex_out_single_def ex_single_returns_def)
  from inv1 ex_main_single 11
  have 12: "\<forall>c\<in>set (cols (returns_assets ex_out_single)). list_all (\<lambda>v. \<not> isna v) (snd c)"
    by blast
  have "cols (returns_assets ex_out_single) ! 0 \<in> set (cols (returns_assets ex_out_single))"
    by (simp add: ex_out_single_def ex_single_returns_def)
  with 12 have 13: "list_all (\<lambda>v. \<not> isna v) (column (returns_assets ex_out_single) 0)"
    unfolding column_def by blast
  from ex_main d u 1 6 8 10 ex_main_single 11 13 ex_load 2 3 5 show ?thesis by blast
qed

text \<open>Claim C4 as stated fails for the asset return table of the pipeline: an asset
  without prices at the start of the window keeps undefined returns in rows where
  another asset is defined, and \<^verbatim>\<open>dropna(how="all")\<close> keeps those rows.\<close>

theorem pipeline_returns_undefined_counterexample:
  "main ex_reader ex_resample ex_args = Inr ex_out \<and>
   column (returns_assets ex_out) 1 = [NaN, NaN, Num (1 / 20)] \<and>
   isna (column (returns_assets ex_out) 1 ! 0)"
  using ex_main by (simp add: ex_out_def ex_returns_assets_def column_def)

end
